theory Spec2Isabelle
  imports Complex_Main
begin

section \<open>Data model\<close>

text \<open>
  The subscription ledger of \<^verbatim>\<open>services/subscriptionService.js\<close> (classes
  \<^verbatim>\<open>SubscriptionService\<close> and \<^verbatim>\<open>ExpiryManager\<close>) and the balance
  adjustment of \<^verbatim>\<open>routes/subscription.js\<close>.

  Conventions of the embedding:
  \<^item> a \<^verbatim>\<open>Date\<close> is its \<^verbatim>\<open>getTime()\<close> value, an \<open>int\<close> of milliseconds;
  \<^item> VV amounts are JavaScript numbers in the source; here they are exact rationals,
    so \<^verbatim>\<open>parseFloat\<close> of a number is the identity and no rounding takes place;
  \<^item> a document field that may be absent is an \<open>option\<close>; \<^verbatim>\<open>x || 0\<close> reads
    an absent (or zero) number as 0;
  \<^item> a MongoDB collection is the list of its documents in natural order;
    \<^verbatim>\<open>findOne\<close> returns the first match, \<^verbatim>\<open>updateOne\<close> changes the
    first match, \<^verbatim>\<open>find(...).toArray()\<close> is the list of all matches;
  \<^item> an \<^verbatim>\<open>ObjectId\<close> is a natural number drawn from a counter kept with the store.
\<close>

type_synonym oid = nat
type_synonym time = int

record discount =
  d_type :: string
  d_value :: rat

record plan =
  p_id :: string
  p_title :: string
  price_vv :: rat
  days :: int
  p_role_id :: "string option"
  p_discount :: "discount option"

record user =
  u_id :: string
  vv_balance :: "rat option"
  u_updated_at :: "time option"

record subscription =
  sub_id :: oid
  s_user_id :: string
  s_plan_id :: string
  s_title :: string
  s_role_id :: "string option"
  s_status :: string
  created_at :: time
  started_at :: time
  expires_at :: time
  s_updated_at :: "time option"
  duration_days :: int
  original_price_vv :: rat
  paid_price_vv :: rat
  total_paid_vv :: "rat option"
  discount_applied :: "discount option"
  renewal_count :: "int option"
  warning_sent :: bool
  warning_sent_at :: "time option"
  expired_at :: "time option"
  last_renewed_at :: "time option"
  last_renewal_plan_id :: "string option"
  last_renewal_amount :: "rat option"

record transaction =
  tx_id :: oid
  t_user_id :: string
  t_subscription_id :: oid
  t_plan_id :: string
  t_plan_title :: string
  amount_vv :: rat
  final_price_vv :: rat
  t_discount_applied :: "discount option"
  discount_amount :: rat
  transaction_type :: string
  t_created_at :: time
  idempotency_key :: string
  t_status :: string
  t_type :: string
  user_balance_before :: rat
  user_balance_after :: rat
  t_duration_days :: int

record store =
  users :: "user list"
  subscriptions :: "subscription list"
  transactions :: "transaction list"
  next_oid :: oid

datatype error =
    PlanNotFound
  | DuplicateTransaction
  | UserNotFound
  | InsufficientBalance rat rat
  | DuplicateKeyError

record purchase_result =
  r_finalPrice :: rat
  r_subscription :: subscription
  r_transaction :: transaction
  r_isRenewal :: bool
  r_user :: user

section \<open>Collection primitives\<close>

definition findOne :: "('a \<Rightarrow> bool) \<Rightarrow> 'a list \<Rightarrow> 'a option" where
  "findOne p xs = find p xs"

fun updateOne :: "('a \<Rightarrow> bool) \<Rightarrow> ('a \<Rightarrow> 'a) \<Rightarrow> 'a list \<Rightarrow> 'a list" where
  "updateOne p f [] = []"
| "updateOne p f (x # xs) = (if p x then f x # xs else x # updateOne p f xs)"

fun deleteOne :: "('a \<Rightarrow> bool) \<Rightarrow> 'a list \<Rightarrow> 'a list" where
  "deleteOne p [] = []"
| "deleteOne p (x # xs) = (if p x then xs else x # deleteOne p xs)"

text \<open>\<^verbatim>\<open>x || 0\<close> on an optional number.\<close>

definition or_zero :: "rat option \<Rightarrow> rat" where
  "or_zero v = (case v of None \<Rightarrow> 0 | Some x \<Rightarrow> x)"

definition count_or_zero :: "int option \<Rightarrow> int" where
  "count_or_zero v = (case v of None \<Rightarrow> 0 | Some n \<Rightarrow> n)"

section \<open>Pricing\<close>

text \<open>
  \<^verbatim>\<open>calculateFinalPrice(plan, true)\<close>: the pair (finalPrice, discountAmount) of the
  returned object; \<^verbatim>\<open>calculateFinalPrice(plan)\<close> is its first component. The
  branches are those of the source: no discount, \<^verbatim>\<open>"percent"\<close>,
  \<^verbatim>\<open>"fixed"\<close> (the only one with \<^verbatim>\<open>Math.max(0, ...)\<close>), any other type.
\<close>

definition calculateFinalPriceObj :: "plan \<Rightarrow> rat \<times> rat" where
  "calculateFinalPriceObj pl =
     (case p_discount pl of
        None \<Rightarrow> (price_vv pl, 0)
      | Some d \<Rightarrow>
          (let originalPrice = price_vv pl;
               finalPrice =
                 (if d_type d = ''percent'' then originalPrice * (1 - d_value d / 100)
                  else if d_type d = ''fixed'' then max 0 (originalPrice - d_value d)
                  else originalPrice)
           in (finalPrice, originalPrice - finalPrice)))"

definition calculateFinalPrice :: "plan \<Rightarrow> rat" where
  "calculateFinalPrice pl = fst (calculateFinalPriceObj pl)"

section \<open>Purchase\<close>

definition planDurationMs :: "plan \<Rightarrow> int" where
  "planDurationMs pl = days pl * 24 * 60 * 60 * 1000"

text \<open>The query \<^verbatim>\<open>{user_id, status: "active", expires_at: {$gt: now}}\<close>.\<close>

definition active_unexpired :: "string \<Rightarrow> time \<Rightarrow> subscription \<Rightarrow> bool" where
  "active_unexpired userId now d \<longleftrightarrow>
     s_user_id d = userId \<and> s_status d = ''active'' \<and> expires_at d > now"

text \<open>
  The \<^verbatim>\<open>$set\<close>/\<^verbatim>\<open>$inc\<close> update of a renewal, applied to the stored
  document (\<^verbatim>\<open>$inc\<close> of an absent field starts from 0).
\<close>

definition renew_update :: "plan \<Rightarrow> rat \<Rightarrow> time \<Rightarrow> time \<Rightarrow> subscription \<Rightarrow> subscription" where
  "renew_update pl finalPrice now newExpiresAt d =
     d\<lparr> expires_at := newExpiresAt,
        s_updated_at := Some now,
        last_renewed_at := Some now,
        last_renewal_plan_id := Some (p_id pl),
        last_renewal_amount := Some finalPrice,
        renewal_count := Some (count_or_zero (renewal_count d) + 1),
        total_paid_vv := Some (or_zero (total_paid_vv d) + finalPrice) \<rparr>"

text \<open>
  The object \<^verbatim>\<open>subscriptionData\<close> returned for a renewal: a copy of the document
  found, with \<^verbatim>\<open>total_paid_vv || paid_price_vv || 0\<close> as the base of the total.
\<close>

definition renewed_copy :: "rat \<Rightarrow> time \<Rightarrow> time \<Rightarrow> subscription \<Rightarrow> subscription" where
  "renewed_copy finalPrice now newExpiresAt d =
     d\<lparr> expires_at := newExpiresAt,
        s_updated_at := Some now,
        last_renewed_at := Some now,
        renewal_count := Some (count_or_zero (renewal_count d) + 1),
        total_paid_vv :=
          Some ((if or_zero (total_paid_vv d) \<noteq> 0 then or_zero (total_paid_vv d)
                 else paid_price_vv d) + finalPrice) \<rparr>"

definition new_subscription :: "oid \<Rightarrow> string \<Rightarrow> plan \<Rightarrow> rat \<Rightarrow> time \<Rightarrow> subscription" where
  "new_subscription i userId pl finalPrice now =
     \<lparr> sub_id = i,
       s_user_id = userId,
       s_plan_id = p_id pl,
       s_title = p_title pl,
       s_role_id = p_role_id pl,
       s_status = ''active'',
       created_at = now,
       started_at = now,
       expires_at = now + planDurationMs pl,
       s_updated_at = Some now,
       duration_days = days pl,
       original_price_vv = price_vv pl,
       paid_price_vv = finalPrice,
       total_paid_vv = Some finalPrice,
       discount_applied = p_discount pl,
       renewal_count = Some 0,
       warning_sent = False,
       warning_sent_at = None,
       expired_at = None,
       last_renewed_at = None,
       last_renewal_plan_id = None,
       last_renewal_amount = None \<rparr>"

definition new_transaction ::
  "oid \<Rightarrow> string \<Rightarrow> oid \<Rightarrow> plan \<Rightarrow> rat \<Rightarrow> bool \<Rightarrow> time \<Rightarrow> string \<Rightarrow> rat \<Rightarrow> rat \<Rightarrow> transaction" where
  "new_transaction i userId subId pl finalPrice isRenewal now idempotencyKey userBalance newBalance =
     \<lparr> tx_id = i,
       t_user_id = userId,
       t_subscription_id = subId,
       t_plan_id = p_id pl,
       t_plan_title = p_title pl,
       amount_vv = price_vv pl,
       final_price_vv = finalPrice,
       t_discount_applied = p_discount pl,
       discount_amount = price_vv pl - finalPrice,
       transaction_type = (if isRenewal then ''renewal'' else ''purchase''),
       t_created_at = now,
       idempotency_key = idempotencyKey,
       t_status = ''completed'',
       t_type = ''subscription_purchase'',
       user_balance_before = userBalance,
       user_balance_after = newBalance,
       t_duration_days = days pl \<rparr>"

text \<open>
  \<^verbatim>\<open>insertOne\<close> into \<^verbatim>\<open>transactions\<close>, which carries the unique index on
  \<^verbatim>\<open>idempotency_key\<close> created in \<^verbatim>\<open>config/mongodb.js\<close>: a second document
  with the same key is refused by the store.
\<close>

definition insert_transaction :: "transaction \<Rightarrow> store \<Rightarrow> error + store" where
  "insert_transaction t s =
     (if findOne (\<lambda>x. idempotency_key x = idempotency_key t) (transactions s) \<noteq> None
      then Inl DuplicateKeyError
      else Inr (s\<lparr> transactions := transactions s @ [t], next_oid := Suc (next_oid s) \<rparr>))"

text \<open>
  The callback given to \<^verbatim>\<open>session.withTransaction\<close> (lines 177--332): user
  lookup, balance check, renewal lookup, subscription write, balance write, transaction
  insert, in this order. It contains no lookup of the idempotency key.
\<close>

definition purchase_txn ::
  "plan \<Rightarrow> rat \<Rightarrow> time \<Rightarrow> string \<Rightarrow> string \<Rightarrow> store \<Rightarrow> error + (purchase_result \<times> store)" where
  "purchase_txn pl finalPrice now userId idempotencyKey s =
     (case findOne (\<lambda>u. u_id u = userId) (users s) of
        None \<Rightarrow> Inl UserNotFound
      | Some usr \<Rightarrow>
          (let userBalance = or_zero (vv_balance usr) in
           if userBalance < finalPrice then Inl (InsufficientBalance userBalance finalPrice)
           else
             (let (isRenewal, subscriptionData, s1) =
                    (case findOne (active_unexpired userId now) (subscriptions s) of
                       Some existing \<Rightarrow>
                         (let newExpiresAt = expires_at existing + planDurationMs pl in
                          (True,
                           renewed_copy finalPrice now newExpiresAt existing,
                           s\<lparr> subscriptions :=
                                updateOne (\<lambda>d. sub_id d = sub_id existing)
                                  (renew_update pl finalPrice now newExpiresAt)
                                  (subscriptions s) \<rparr>))
                     | None \<Rightarrow>
                         (let d = new_subscription (next_oid s) userId pl finalPrice now in
                          (False, d,
                           s\<lparr> subscriptions := subscriptions s @ [d],
                              next_oid := Suc (next_oid s) \<rparr>)));
                  newBalance = userBalance - finalPrice;
                  s2 = s1\<lparr> users :=
                            updateOne (\<lambda>u. u_id u = userId)
                              (\<lambda>u. u\<lparr> vv_balance := Some newBalance, u_updated_at := Some now \<rparr>)
                              (users s1) \<rparr>;
                  transactionData =
                    new_transaction (next_oid s2) userId (sub_id subscriptionData) pl finalPrice
                      isRenewal now idempotencyKey userBalance newBalance
              in (case insert_transaction transactionData s2 of
                    Inl e \<Rightarrow> Inl e
                  | Inr s3 \<Rightarrow>
                      Inr (\<lparr> r_finalPrice = finalPrice,
                             r_subscription = subscriptionData,
                             r_transaction = transactionData,
                             r_isRenewal = isRenewal,
                             r_user = usr \<rparr>, s3)))))"

text \<open>
  \<^verbatim>\<open>session.withTransaction\<close>: the writes of the callback are kept when it
  returns and discarded when it throws.
\<close>

definition withTransaction ::
  "(store \<Rightarrow> error + ('r \<times> store)) \<Rightarrow> store \<Rightarrow> (error + 'r) \<times> store" where
  "withTransaction body s =
     (case body s of Inl e \<Rightarrow> (Inl e, s) | Inr (r, s') \<Rightarrow> (Inr r, s'))"

text \<open>
  \<^verbatim>\<open>purchaseSubscription(userId, planId, idempotencyKey)\<close> up to the commit; the
  catalogue \<open>plans\<close> is the result of \<^verbatim>\<open>getPlans()\<close> and \<open>now\<close> the clock read
  inside the transaction. The calls that follow the commit (role grant, channel
  messages, presence refresh) do not write to the three collections, except for the
  deferred deletion of the transaction record, which is \<open>cleanupTransaction\<close>.
\<close>

definition purchaseSubscription ::
  "plan list \<Rightarrow> time \<Rightarrow> string \<Rightarrow> string \<Rightarrow> string \<Rightarrow> store \<Rightarrow> (error + purchase_result) \<times> store" where
  "purchaseSubscription plans now userId planId idempotencyKey s =
     (case find (\<lambda>p. p_id p = planId) plans of
        None \<Rightarrow> (Inl PlanNotFound, s)
      | Some pl \<Rightarrow>
          (let finalPrice = calculateFinalPrice pl in
           if findOne (\<lambda>t. idempotency_key t = idempotencyKey) (transactions s) \<noteq> None
           then (Inl DuplicateTransaction, s)
           else withTransaction (purchase_txn pl finalPrice now userId idempotencyKey) s))"

text \<open>
  The deferred \<^verbatim>\<open>deleteOne({_id: transaction._id})\<close> of
  \<^verbatim>\<open>sendTransactionChannelMessage\<close>, run five seconds after the channel message
  was sent.
\<close>

definition cleanupTransaction :: "oid \<Rightarrow> store \<Rightarrow> store" where
  "cleanupTransaction i s = s\<lparr> transactions := deleteOne (\<lambda>t. tx_id t = i) (transactions s) \<rparr>"

section \<open>Admin balance adjustment\<close>

datatype admin_error = BadRequest | TargetNotFound

text \<open>
  \<^verbatim>\<open>POST /admin/users/:userId/balance\<close> of \<^verbatim>\<open>routes/subscription.js\<close>, for a
  caller that passed the admin check. \<open>amount\<close> is the parsed
  \<^verbatim>\<open>adjustmentAmount\<close>; \<open>None\<close> stands for a body the route answers with 400
  (amount absent, falsy or not a number). The amount is not compared with 0 anywhere.
  The insert into \<^verbatim>\<open>admin_actions\<close> touches no collection of the ledger.
\<close>

definition adminAdjustBalance ::
  "time \<Rightarrow> string \<Rightarrow> rat option \<Rightarrow> string \<Rightarrow> store \<Rightarrow> (admin_error + rat) \<times> store" where
  "adminAdjustBalance now userId amount operation s =
     (case amount of
        None \<Rightarrow> (Inl BadRequest, s)
      | Some adjustmentAmount \<Rightarrow>
          (case findOne (\<lambda>u. u_id u = userId) (users s) of
             None \<Rightarrow> (Inl TargetNotFound, s)
           | Some usr \<Rightarrow>
               (let currentBalance = or_zero (vv_balance usr);
                    store_balance = (\<lambda>newBalance.
                      (Inr newBalance,
                       s\<lparr> users :=
                            updateOne (\<lambda>u. u_id u = userId)
                              (\<lambda>u. u\<lparr> vv_balance := Some newBalance, u_updated_at := Some now \<rparr>)
                              (users s) \<rparr>))
                in if operation = ''set'' then store_balance adjustmentAmount
                   else if operation = ''add'' then store_balance (currentBalance + adjustmentAmount)
                   else if operation = ''subtract''
                     then store_balance (max 0 (currentBalance - adjustmentAmount))
                   else (Inl BadRequest, s))))"

text \<open>The balance of a user as the purchase reads it.\<close>

definition balance_of :: "string \<Rightarrow> store \<Rightarrow> rat" where
  "balance_of userId s =
     (case findOne (\<lambda>u. u_id u = userId) (users s) of
        None \<Rightarrow> 0
      | Some usr \<Rightarrow> or_zero (vv_balance usr))"

section \<open>Expiry manager\<close>

text \<open>
  The outside world of a sweep. A sweep reads the clock once: every
  \<^verbatim>\<open>new Date()\<close> of one run is the run's \<open>now\<close>, and the pauses between
  items are not modelled. \<open>tz_offset\<close> is the offset of local time from UTC in
  milliseconds (\<^verbatim>\<open>setHours\<close> works in local time; a fixed offset is assumed).
  Each call to a collaborator may throw, as the flags say, per subscription:
  the role removal, the two channel messages, and the \<^verbatim>\<open>updateOne\<close> on
  \<^verbatim>\<open>subscriptions\<close>. The queries that select the documents are taken to
  return; the refresh of the bot's presence writes nothing to the store and is left out.
\<close>

record env =
  tz_offset :: int
  discord_configured :: bool
  revoke_fails :: "oid \<Rightarrow> bool"
  expired_msg_fails :: "oid \<Rightarrow> bool"
  warning_msg_fails :: "oid \<Rightarrow> bool"
  sub_update_fails :: "oid \<Rightarrow> bool"

text \<open>
  The calls made to the notification side, in order; the flag tells whether the call
  returned (\<open>True\<close>) or threw (\<open>False\<close>).
\<close>

datatype event =
    RevokeRole string string bool
  | ExpiredNotice oid bool
  | WarningNotice oid bool

fun is_expired_notice :: "oid \<Rightarrow> event \<Rightarrow> bool" where
  "is_expired_notice i (ExpiredNotice j ok) = (i = j)"
| "is_expired_notice i ev = False"

definition dayMs :: int where
  "dayMs = 24 * 60 * 60 * 1000"

text \<open>\<^verbatim>\<open>setHours(0, 0, 0, 0)\<close> on today.\<close>

definition todayStart :: "env \<Rightarrow> time \<Rightarrow> time" where
  "todayStart e now = now - (now + tz_offset e) mod dayMs"

text \<open>\<^verbatim>\<open>setDate(getDate() + 1); setHours(23, 59, 59, 999)\<close>.\<close>

definition tomorrowEnd :: "env \<Rightarrow> time \<Rightarrow> time" where
  "tomorrowEnd e now = todayStart e now + 2 * dayMs - 1"

definition expire_update :: "time \<Rightarrow> subscription \<Rightarrow> subscription" where
  "expire_update now d =
     d\<lparr> s_status := ''expired'', expired_at := Some now, s_updated_at := Some now \<rparr>"

definition warn_update :: "time \<Rightarrow> subscription \<Rightarrow> subscription" where
  "warn_update now d =
     d\<lparr> warning_sent := True, warning_sent_at := Some now, s_updated_at := Some now \<rparr>"

definition truthy :: "string option \<Rightarrow> bool" where
  "truthy v = (case v of None \<Rightarrow> False | Some x \<Rightarrow> x \<noteq> [])"

text \<open>
  \<^verbatim>\<open>processExpiredSubscription(subscription, db)\<close>: role removal inside its own
  \<^verbatim>\<open>try\<close>, then the status update, then the expired message inside its own
  \<^verbatim>\<open>try\<close>, so that a throw of either is caught on the spot. Only a failing
  update makes the function throw (\<open>False\<close> in the result).
  \<open>d\<close> is the document as it was read by the caller's query.
\<close>

definition processExpiredSubscription ::
  "env \<Rightarrow> time \<Rightarrow> subscription \<Rightarrow> store \<Rightarrow> bool \<times> store \<times> event list" where
  "processExpiredSubscription e now d s =
     (let revoke =
            (if truthy (s_role_id d) \<and> discord_configured e
             then [RevokeRole (s_user_id d) (the (s_role_id d)) (\<not> revoke_fails e (sub_id d))]
             else [])
      in if sub_update_fails e (sub_id d) then (False, s, revoke)
         else (True,
               s\<lparr> subscriptions :=
                    updateOne (\<lambda>x. sub_id x = sub_id d) (expire_update now) (subscriptions s) \<rparr>,
               revoke @ [ExpiredNotice (sub_id d) (\<not> expired_msg_fails e (sub_id d))]))"

text \<open>
  The \<^verbatim>\<open>for\<close> loop over the documents selected for expiry, each item in its own
  \<^verbatim>\<open>try\<close>/\<^verbatim>\<open>catch\<close>; the same loop stands in
  \<^verbatim>\<open>handleExpiredSubscriptions\<close> and in \<^verbatim>\<open>runRecoveryCheck\<close>. The result
  is the number of items processed, the store and the calls made.
\<close>

fun expire_loop :: "env \<Rightarrow> time \<Rightarrow> subscription list \<Rightarrow> store \<Rightarrow> nat \<times> store \<times> event list" where
  "expire_loop e now [] s = (0, s, [])"
| "expire_loop e now (d # ds) s =
     (case processExpiredSubscription e now d s of
        (ok, s1, ev) \<Rightarrow>
          (case expire_loop e now ds s1 of
             (n, s2, evs) \<Rightarrow> ((if ok then 1 else 0) + n, s2, ev @ evs)))"

text \<open>
  One item of a warning loop: the channel message, then the
  \<^verbatim>\<open>warning_sent\<close> update, both inside one \<^verbatim>\<open>try\<close>.
\<close>

definition warn_one :: "env \<Rightarrow> time \<Rightarrow> subscription \<Rightarrow> store \<Rightarrow> bool \<times> store \<times> event list" where
  "warn_one e now d s =
     (if warning_msg_fails e (sub_id d) then (False, s, [WarningNotice (sub_id d) False])
      else if sub_update_fails e (sub_id d) then (False, s, [WarningNotice (sub_id d) True])
      else (True,
            s\<lparr> subscriptions :=
                 updateOne (\<lambda>x. sub_id x = sub_id d) (warn_update now) (subscriptions s) \<rparr>,
            [WarningNotice (sub_id d) True]))"

fun warn_loop :: "env \<Rightarrow> time \<Rightarrow> subscription list \<Rightarrow> store \<Rightarrow> nat \<times> store \<times> event list" where
  "warn_loop e now [] s = (0, s, [])"
| "warn_loop e now (d # ds) s =
     (case warn_one e now d s of
        (ok, s1, ev) \<Rightarrow>
          (case warn_loop e now ds s1 of
             (n, s2, evs) \<Rightarrow> ((if ok then 1 else 0) + n, s2, ev @ evs)))"

text \<open>
  The query of \<^verbatim>\<open>sendExpiryWarnings\<close>:
  \<^verbatim>\<open>{status: "active", expires_at: {$gte: todayStart, $lte: tomorrow}, warning_sent: {$ne: true}}\<close>.
\<close>

definition to_warn :: "env \<Rightarrow> time \<Rightarrow> subscription \<Rightarrow> bool" where
  "to_warn e now d \<longleftrightarrow>
     s_status d = ''active'' \<and> todayStart e now \<le> expires_at d
     \<and> expires_at d \<le> tomorrowEnd e now \<and> warning_sent d \<noteq> True"

text \<open>The query \<^verbatim>\<open>{status: "active", expires_at: {$lt: now}}\<close> of both sweeps.\<close>

definition is_stale :: "time \<Rightarrow> subscription \<Rightarrow> bool" where
  "is_stale now d \<longleftrightarrow> s_status d = ''active'' \<and> expires_at d < now"

text \<open>
  The query for missed warnings of \<^verbatim>\<open>runRecoveryCheck\<close>:
  \<^verbatim>\<open>{status: "active", expires_at: {$lt: now24Hours, $gt: now}, warning_sent: {$ne: true}}\<close>.
\<close>

definition missed_warning :: "time \<Rightarrow> subscription \<Rightarrow> bool" where
  "missed_warning now d \<longleftrightarrow>
     s_status d = ''active'' \<and> expires_at d < now + dayMs \<and> expires_at d > now
     \<and> warning_sent d \<noteq> True"

definition sendExpiryWarnings :: "env \<Rightarrow> time \<Rightarrow> store \<Rightarrow> nat \<times> store \<times> event list" where
  "sendExpiryWarnings e now s = warn_loop e now (filter (to_warn e now) (subscriptions s)) s"

definition handleExpiredSubscriptions :: "env \<Rightarrow> time \<Rightarrow> store \<Rightarrow> nat \<times> store \<times> event list" where
  "handleExpiredSubscriptions e now s =
     expire_loop e now (filter (is_stale now) (subscriptions s)) s"

text \<open>\<^verbatim>\<open>checkExpiries\<close>: the warning pass, then the expiry pass.\<close>

definition checkExpiries :: "env \<Rightarrow> time \<Rightarrow> store \<Rightarrow> store \<times> event list" where
  "checkExpiries e now s =
     (case sendExpiryWarnings e now s of
        (w, s1, ev1) \<Rightarrow>
          (case handleExpiredSubscriptions e now s1 of
             (n, s2, ev2) \<Rightarrow> (s2, ev1 @ ev2)))"

text \<open>
  \<^verbatim>\<open>runRecoveryCheck\<close>: the stale subscriptions first, then the missed warnings,
  selected from the store as the first loop left it.
\<close>

definition runRecoveryCheck :: "env \<Rightarrow> time \<Rightarrow> store \<Rightarrow> store \<times> event list" where
  "runRecoveryCheck e now s =
     (case expire_loop e now (filter (is_stale now) (subscriptions s)) s of
        (n, s1, ev1) \<Rightarrow>
          (case warn_loop e now (filter (missed_warning now) (subscriptions s1)) s1 of
             (w, s2, ev2) \<Rightarrow> (s2, ev1 @ ev2)))"

section \<open>Auxiliary notions and sample data\<close>

text \<open>
  A loop over the documents \<open>todo\<close> read by a query changes the stored document \<open>x\<close>
  when \<open>todo\<close> holds a document with the identifier of \<open>x\<close> whose update goes through.
\<close>

definition hit :: "(oid \<Rightarrow> bool) \<Rightarrow> subscription list \<Rightarrow> subscription \<Rightarrow> bool" where
  "hit fails todo x \<longleftrightarrow> (\<exists>d\<in>set todo. sub_id d = sub_id x \<and> \<not> fails (sub_id d))"

definition balances_nonneg :: "store \<Rightarrow> bool" where
  "balances_nonneg s \<longleftrightarrow> (\<forall>u\<in>set (users s). 0 \<le> or_zero (vv_balance u))"

text \<open>
  The scenario of the specification: a user with balance 500, a 30-day plan priced at
  200 and a 15-day plan priced at 100, neither discounted.
\<close>

definition plan30 :: plan where
  "plan30 = \<lparr> p_id = ''p30'', p_title = ''Monthly'', price_vv = 200, days = 30,
              p_role_id = Some ''role1'', p_discount = None \<rparr>"

definition plan15 :: plan where
  "plan15 = \<lparr> p_id = ''p15'', p_title = ''Fortnight'', price_vv = 100, days = 15,
              p_role_id = Some ''role1'', p_discount = None \<rparr>"

definition store0 :: store where
  "store0 = \<lparr> users = [\<lparr> u_id = ''u1'', vv_balance = Some 500, u_updated_at = None \<rparr>],
              subscriptions = [], transactions = [], next_oid = 0 \<rparr>"

text \<open>The store after the purchase of \<open>plan30\<close> at time 1000 with key \<open>k1\<close>.\<close>

definition sub_first :: subscription where
  "sub_first = new_subscription 0 ''u1'' plan30 200 1000"

definition store1 :: store where
  "store1 = \<lparr> users = [\<lparr> u_id = ''u1'', vv_balance = Some 300, u_updated_at = Some 1000 \<rparr>],
      subscriptions = [sub_first],
      transactions = [new_transaction 1 ''u1'' 0 plan30 200 False 1000 ''k1'' 500 300],
      next_oid = 2 \<rparr>"

text \<open>A store that holds the key \<open>k1\<close> while the balance of the user is 0.\<close>

definition store_held :: store where
  "store_held = \<lparr> users = [\<lparr> u_id = ''u1'', vv_balance = Some 0, u_updated_at = None \<rparr>],
      subscriptions = [],
      transactions = [new_transaction 0 ''u1'' 7 plan30 200 False 500 ''k1'' 200 0],
      next_oid = 1 \<rparr>"

text \<open>A user whose only subscription is still marked active after its expiry at 5000.\<close>

definition sub_stale :: subscription where
  "sub_stale = (new_subscription 0 ''u1'' plan15 100 1000)\<lparr> expires_at := 5000 \<rparr>"

definition store_stale :: store where
  "store_stale = \<lparr> users = [\<lparr> u_id = ''u1'', vv_balance = Some 300, u_updated_at = Some 1000 \<rparr>],
      subscriptions = [sub_stale], transactions = [], next_oid = 2 \<rparr>"

text \<open>A warning is not recorded when the channel message or the update throws.\<close>

definition warn_blocked :: "env \<Rightarrow> oid \<Rightarrow> bool" where
  "warn_blocked e i \<longleftrightarrow> warning_msg_fails e i \<or> sub_update_fails e i"

text \<open>
  Sweeps: an environment where every call goes through and one where the role
  removal and the expired message of every subscription throw and the update of
  subscription 0 throws; two subscriptions long expired and one that expires 42 hours
  after the midnight that starts day 0 (the runs below take place at 12:00 of day 0,
  that is at 43200000, in UTC).
\<close>

definition env_ok :: env where
  "env_ok = \<lparr> tz_offset = 0, discord_configured = True,
      revoke_fails = (\<lambda>i. False), expired_msg_fails = (\<lambda>i. False),
      warning_msg_fails = (\<lambda>i. False), sub_update_fails = (\<lambda>i. False) \<rparr>"

definition env_faulty :: env where
  "env_faulty = \<lparr> tz_offset = 0, discord_configured = True,
      revoke_fails = (\<lambda>i. True), expired_msg_fails = (\<lambda>i. True),
      warning_msg_fails = (\<lambda>i. False), sub_update_fails = (\<lambda>i. i = 0) \<rparr>"

definition sub_a :: subscription where
  "sub_a = (new_subscription 0 ''u1'' plan30 200 0)\<lparr> expires_at := 1000 \<rparr>"

definition sub_b :: subscription where
  "sub_b = (new_subscription 1 ''u2'' plan30 200 0)\<lparr> expires_at := 2000 \<rparr>"

definition sub_later :: subscription where
  "sub_later = (new_subscription 2 ''u3'' plan30 200 0)\<lparr> expires_at := 151200000 \<rparr>"

definition store_sweep :: store where
  "store_sweep = \<lparr> users = [], subscriptions = [sub_a, sub_b, sub_later], transactions = [],
      next_oid = 3 \<rparr>"

definition store_later :: store where
  "store_later = \<lparr> users = [], subscriptions = [sub_later], transactions = [], next_oid = 3 \<rparr>"

section \<open>Pricing: properties\<close>

lemma calculateFinalPrice_no_discount:
  "p_discount pl = None \<Longrightarrow> calculateFinalPriceObj pl = (price_vv pl, 0)"
  by (simp add: calculateFinalPriceObj_def)

lemma calculateFinalPrice_fixed:
  "p_discount pl = Some d \<Longrightarrow> d_type d = ''fixed'' \<Longrightarrow>
   calculateFinalPriceObj pl =
     (max 0 (price_vv pl - d_value d), price_vv pl - max 0 (price_vv pl - d_value d))"
  by (simp add: calculateFinalPriceObj_def Let_def)

lemma calculateFinalPrice_percent:
  "p_discount pl = Some d \<Longrightarrow> d_type d = ''percent'' \<Longrightarrow>
   calculateFinalPriceObj pl =
     (price_vv pl * (1 - d_value d / 100), price_vv pl - price_vv pl * (1 - d_value d / 100))"
  by (simp add: calculateFinalPriceObj_def Let_def)

lemma calculateFinalPrice_percent_nonneg:
  assumes "p_discount pl = Some d" and "d_type d = ''percent''"
    and "0 \<le> price_vv pl" and "d_value d \<le> 100"
  shows "0 \<le> calculateFinalPrice pl"
  using assms
  by (simp add: calculateFinalPrice_def calculateFinalPriceObj_def Let_def)

lemma calculateFinalPrice_example_percent:
  "calculateFinalPriceObj
     \<lparr> p_id = ''p'', p_title = ''t'', price_vv = 100, days = 30, p_role_id = None,
       p_discount = Some \<lparr> d_type = ''percent'', d_value = 25 \<rparr> \<rparr> = (75, 25)"
  by (simp add: calculateFinalPriceObj_def Let_def)

lemma calculateFinalPrice_example_fixed:
  "calculateFinalPriceObj
     \<lparr> p_id = ''p'', p_title = ''t'', price_vv = 100, days = 30, p_role_id = None,
       p_discount = Some \<lparr> d_type = ''fixed'', d_value = 150 \<rparr> \<rparr> = (0, 100)"
  by (simp add: calculateFinalPriceObj_def Let_def)

text \<open>
  C5. The claim: the final price is the price minus the discount floored at 0, for a
  percent discount as for a fixed one, and the discount amount is the price minus the
  floored final price. The \<^verbatim>\<open>"percent"\<close> branch has no floor: a plan priced at 100
  with a percent discount of 150 gets the final price -50 and the discount amount 150,
  where the claim gives 0 and 100.
\<close>

theorem calculateFinalPrice_percent_above_100:
  "calculateFinalPriceObj
     \<lparr> p_id = ''p'', p_title = ''t'', price_vv = 100, days = 30, p_role_id = None,
       p_discount = Some \<lparr> d_type = ''percent'', d_value = 150 \<rparr> \<rparr> = (- 50, 150)
   \<and> calculateFinalPrice
     \<lparr> p_id = ''p'', p_title = ''t'', price_vv = 100, days = 30, p_role_id = None,
       p_discount = Some \<lparr> d_type = ''percent'', d_value = 150 \<rparr> \<rparr> < 0"
  by (simp add: calculateFinalPrice_def calculateFinalPriceObj_def Let_def)

section \<open>Collections: properties\<close>

lemma updateOne_length: "length (updateOne p f xs) = length xs"
  by (induction xs) simp_all

lemma updateOne_by_key:
  "distinct (map k xs) \<Longrightarrow>
   updateOne (\<lambda>x. k x = i) f xs = map (\<lambda>x. if k x = i then f x else x) xs"
proof (induction xs)
  case Nil
  then show ?case by simp
next
  case (Cons a xs)
  show ?case
  proof (cases "k a = i")
    case True
    from Cons.prems have "k a \<notin> k ` set xs" by simp
    with True have "\<forall>x\<in>set xs. k x \<noteq> i" by blast
    then have "map (\<lambda>x. if k x = i then f x else x) xs = xs"
      by (simp add: map_idI)
    with True show ?thesis by simp
  next
    case False
    with Cons show ?thesis by simp
  qed
qed

lemma updateOne_no_match: "\<forall>x\<in>set xs. \<not> p x \<Longrightarrow> updateOne p f xs = xs"
  by (induction xs) simp_all

lemma updateOne_preserves:
  "\<forall>x\<in>set xs. P x \<Longrightarrow> (\<And>x. P (f x)) \<Longrightarrow> \<forall>x\<in>set (updateOne p f xs). P x"
  by (induction xs) auto

lemma findOne_Some: "findOne p xs = Some x \<Longrightarrow> p x \<and> x \<in> set xs"
  by (auto simp: findOne_def find_Some_iff)

lemma findOne_None: "findOne p xs = None \<longleftrightarrow> (\<forall>x\<in>set xs. \<not> p x)"
  by (auto simp: findOne_def find_None_iff)

lemma findOne_append:
  "findOne p (xs @ ys) = (case findOne p xs of Some x \<Rightarrow> Some x | None \<Rightarrow> findOne p ys)"
  by (induction xs) (simp_all add: findOne_def)

lemma findOne_updateOne_same:
  "(\<And>x. p (f x) = p x) \<Longrightarrow> findOne p (updateOne p f xs) = map_option f (findOne p xs)"
  by (induction xs) (simp_all add: findOne_def)

lemma findOne_by_key_map:
  assumes "distinct (map k xs)" and "x \<in> set xs" and "\<And>y. k (f y) = k y"
  shows "findOne (\<lambda>d. k d = k x) (map (\<lambda>y. if k y = k x then f y else y) xs) = Some (f x)"
  using assms(1,2)
proof (induction xs)
  case Nil
  then show ?case by simp
next
  case (Cons a xs)
  show ?case
  proof (cases "a = x")
    case True
    then show ?thesis by (simp add: findOne_def assms(3))
  next
    case False
    with Cons.prems have "x \<in> set xs" and "k a \<noteq> k x" by auto
    with Cons show ?thesis by (simp add: findOne_def)
  qed
qed

lemma find_by_id_exists:
  "x \<in> set xs \<Longrightarrow> \<exists>y. find (\<lambda>d. k d = k x) xs = Some y \<and> k y = k x"
  by (induction xs) auto

lemma zip_same_no_diff: "filter (\<lambda>(a, b). a \<noteq> b) (zip xs xs) = []"
  by (induction xs) simp_all

lemma updateOne_one_diff:
  "find p xs = Some x \<Longrightarrow> f x \<noteq> x \<Longrightarrow>
   length (filter (\<lambda>(a, b). a \<noteq> b) (zip xs (updateOne p f xs))) = 1"
proof (induction xs)
  case Nil
  then show ?case by simp
next
  case (Cons a xs)
  show ?case
  proof (cases "p a")
    case True
    with Cons.prems have "a = x" by simp
    with True Cons.prems show ?thesis by (simp add: zip_same_no_diff)
  next
    case False
    with Cons show ?thesis by simp
  qed
qed

section \<open>Purchase: properties\<close>

text \<open>The atomic unit on a store that does not hold the key: a renewal, or a new record.\<close>

lemma purchase_txn_renewal:
  assumes usr: "findOne (\<lambda>u. u_id u = userId) (users s) = Some usr"
    and bal: "finalPrice \<le> or_zero (vv_balance usr)"
    and ex: "findOne (active_unexpired userId now) (subscriptions s) = Some existing"
    and nodup: "findOne (\<lambda>t. idempotency_key t = key) (transactions s) = None"
  shows "purchase_txn pl finalPrice now userId key s =
     Inr (\<lparr> r_finalPrice = finalPrice,
            r_subscription = renewed_copy finalPrice now (expires_at existing + planDurationMs pl) existing,
            r_transaction = new_transaction (next_oid s) userId (sub_id existing) pl finalPrice True now key
               (or_zero (vv_balance usr)) (or_zero (vv_balance usr) - finalPrice),
            r_isRenewal = True,
            r_user = usr \<rparr>,
          s\<lparr> subscriptions := updateOne (\<lambda>d. sub_id d = sub_id existing)
                 (renew_update pl finalPrice now (expires_at existing + planDurationMs pl)) (subscriptions s),
             users := updateOne (\<lambda>u. u_id u = userId)
                 (\<lambda>u. u\<lparr> vv_balance := Some (or_zero (vv_balance usr) - finalPrice), u_updated_at := Some now \<rparr>) (users s),
             transactions := transactions s @ [new_transaction (next_oid s) userId (sub_id existing) pl finalPrice True now key
               (or_zero (vv_balance usr)) (or_zero (vv_balance usr) - finalPrice)],
             next_oid := Suc (next_oid s) \<rparr>)"
  using assms
  by (simp add: purchase_txn_def Let_def insert_transaction_def new_transaction_def renewed_copy_def)

lemma purchase_txn_new:
  assumes usr: "findOne (\<lambda>u. u_id u = userId) (users s) = Some usr"
    and bal: "finalPrice \<le> or_zero (vv_balance usr)"
    and ex: "findOne (active_unexpired userId now) (subscriptions s) = None"
    and nodup: "findOne (\<lambda>t. idempotency_key t = key) (transactions s) = None"
  shows "purchase_txn pl finalPrice now userId key s =
     Inr (\<lparr> r_finalPrice = finalPrice,
            r_subscription = new_subscription (next_oid s) userId pl finalPrice now,
            r_transaction = new_transaction (Suc (next_oid s)) userId (next_oid s) pl finalPrice False now key
               (or_zero (vv_balance usr)) (or_zero (vv_balance usr) - finalPrice),
            r_isRenewal = False,
            r_user = usr \<rparr>,
          s\<lparr> subscriptions := subscriptions s @ [new_subscription (next_oid s) userId pl finalPrice now],
             users := updateOne (\<lambda>u. u_id u = userId)
                 (\<lambda>u. u\<lparr> vv_balance := Some (or_zero (vv_balance usr) - finalPrice), u_updated_at := Some now \<rparr>) (users s),
             transactions := transactions s @ [new_transaction (Suc (next_oid s)) userId (next_oid s) pl finalPrice False now key
               (or_zero (vv_balance usr)) (or_zero (vv_balance usr) - finalPrice)],
             next_oid := Suc (Suc (next_oid s)) \<rparr>)"
  using assms
  by (simp add: purchase_txn_def Let_def insert_transaction_def new_transaction_def new_subscription_def)

lemma purchase_txn_held_key:
  assumes "findOne (\<lambda>t. idempotency_key t = key) (transactions s) \<noteq> None"
  shows "purchase_txn pl finalPrice now userId key s \<noteq> Inr (r, s')"
  using assms
  by (auto simp: purchase_txn_def Let_def insert_transaction_def new_transaction_def
      split: option.splits prod.splits sum.splits if_splits)

lemma purchase_txn_users:
  assumes "purchase_txn pl fp now userId key s = Inr (r, s1)"
  shows "\<exists>usr. findOne (\<lambda>u. u_id u = userId) (users s) = Some usr
      \<and> fp \<le> or_zero (vv_balance usr)
      \<and> users s1 = updateOne (\<lambda>u. u_id u = userId)
          (\<lambda>u. u\<lparr> vv_balance := Some (or_zero (vv_balance usr) - fp), u_updated_at := Some now \<rparr>)
          (users s)"
  using assms
  by (auto simp: purchase_txn_def Let_def insert_transaction_def
      split: option.splits if_splits sum.splits)

lemma renew_update_changes: "renew_update pl fp now ne d \<noteq> d"
proof
  assume "renew_update pl fp now ne d = d"
  then have "renewal_count (renew_update pl fp now ne d) = renewal_count d" by simp
  then show False by (cases "renewal_count d") (simp_all add: renew_update_def count_or_zero_def)
qed

lemma purchase_success:
  assumes "purchaseSubscription plans now userId planId key s = (Inr r, s1)"
  obtains pl usr where
    "find (\<lambda>p. p_id p = planId) plans = Some pl"
    "findOne (\<lambda>t. idempotency_key t = key) (transactions s) = None"
    "findOne (\<lambda>u. u_id u = userId) (users s) = Some usr"
    "calculateFinalPrice pl \<le> or_zero (vv_balance usr)"
    "purchase_txn pl (calculateFinalPrice pl) now userId key s = Inr (r, s1)"
proof -
  from assms obtain pl where pl: "find (\<lambda>p. p_id p = planId) plans = Some pl"
    by (auto simp: purchaseSubscription_def split: option.splits)
  from assms pl have nodup: "findOne (\<lambda>t. idempotency_key t = key) (transactions s) = None"
    by (auto simp: purchaseSubscription_def Let_def split: if_splits)
  from assms pl nodup have txn: "purchase_txn pl (calculateFinalPrice pl) now userId key s = Inr (r, s1)"
    by (auto simp: purchaseSubscription_def Let_def withTransaction_def split: sum.splits)
  from txn obtain usr where usr: "findOne (\<lambda>u. u_id u = userId) (users s) = Some usr"
    by (auto simp: purchase_txn_def split: option.splits)
  from txn usr have bal: "calculateFinalPrice pl \<le> or_zero (vv_balance usr)"
    by (auto simp: purchase_txn_def Let_def split: if_splits)
  show ?thesis using pl nodup usr bal txn by (rule that)
qed

lemma purchase_error_keeps_store:
  "purchaseSubscription plans now userId planId key s = (Inl e, s1) \<Longrightarrow> s1 = s"
  by (auto simp: purchaseSubscription_def Let_def withTransaction_def
      split: option.splits if_splits sum.splits)

lemma purchase_renewal_result:
  assumes pl: "find (\<lambda>p. p_id p = planId) plans = Some pl"
    and nodup: "findOne (\<lambda>t. idempotency_key t = key) (transactions s) = None"
    and usr: "findOne (\<lambda>u. u_id u = userId) (users s) = Some usr"
    and bal: "calculateFinalPrice pl \<le> or_zero (vv_balance usr)"
    and ex: "findOne (active_unexpired userId now) (subscriptions s) = Some existing"
  shows "\<exists>r s'. purchaseSubscription plans now userId planId key s = (Inr r, s')
      \<and> r_isRenewal r
      \<and> r_subscription r = renewed_copy (calculateFinalPrice pl) now (expires_at existing + planDurationMs pl) existing
      \<and> subscriptions s' = updateOne (\<lambda>d. sub_id d = sub_id existing)
            (renew_update pl (calculateFinalPrice pl) now (expires_at existing + planDurationMs pl)) (subscriptions s)"
  using pl nodup purchase_txn_renewal [OF usr bal ex nodup, of pl]
  by (simp add: purchaseSubscription_def Let_def withTransaction_def)

lemma purchase_new_result:
  assumes pl: "find (\<lambda>p. p_id p = planId) plans = Some pl"
    and nodup: "findOne (\<lambda>t. idempotency_key t = key) (transactions s) = None"
    and usr: "findOne (\<lambda>u. u_id u = userId) (users s) = Some usr"
    and bal: "calculateFinalPrice pl \<le> or_zero (vv_balance usr)"
    and ex: "findOne (active_unexpired userId now) (subscriptions s) = None"
  shows "\<exists>r s'. purchaseSubscription plans now userId planId key s = (Inr r, s')
      \<and> \<not> r_isRenewal r
      \<and> r_subscription r = new_subscription (next_oid s) userId pl (calculateFinalPrice pl) now
      \<and> subscriptions s' = subscriptions s @ [r_subscription r]"
  using pl nodup purchase_txn_new [OF usr bal ex nodup, of pl]
  by (simp add: purchaseSubscription_def Let_def withTransaction_def)

lemma purchase_insufficient_balance:
  assumes "find (\<lambda>p. p_id p = planId) plans = Some pl"
    and "findOne (\<lambda>t. idempotency_key t = key) (transactions s) = None"
    and "findOne (\<lambda>u. u_id u = userId) (users s) = Some usr"
    and "or_zero (vv_balance usr) < calculateFinalPrice pl"
  shows "purchaseSubscription plans now userId planId key s
     = (Inl (InsufficientBalance (or_zero (vv_balance usr)) (calculateFinalPrice pl)), s)"
  using assms
  by (simp add: purchaseSubscription_def Let_def withTransaction_def purchase_txn_def)

lemmas eval_defs =
  purchaseSubscription_def purchase_txn_def withTransaction_def insert_transaction_def
  new_transaction_def new_subscription_def renewed_copy_def renew_update_def
  calculateFinalPrice_def calculateFinalPriceObj_def planDurationMs_def active_unexpired_def
  findOne_def or_zero_def count_or_zero_def Let_def balance_of_def

text \<open>
  C1. Two calls made one after the other with the same idempotency key (and the same
  plan): when the first succeeds, the second, run on the store the first left, with its
  transaction record still there, fails with the duplicate-transaction error and leaves
  the store as it is; whatever plan and user a second call with that key names, it
  fails and changes nothing. The pair debits the balance once, by the final price, leaves one
  transaction record for the key, and either extends one existing subscription (the
  only document that differs) or appends one new subscription.
\<close>

theorem same_key_twice:
  assumes first: "purchaseSubscription plans now userId planId key s = (Inr r, s1)"
  shows "purchaseSubscription plans now' userId' planId key s1 = (Inl DuplicateTransaction, s1)
       \<and> snd (purchaseSubscription plans' now' userId' planId' key s1) = s1
       \<and> (\<exists>e. fst (purchaseSubscription plans' now' userId' planId' key s1) = Inl e)
       \<and> balance_of userId s1 = balance_of userId s - r_finalPrice r
       \<and> length (filter (\<lambda>t. idempotency_key t = key) (transactions s1)) = 1
       \<and> (if r_isRenewal r
          then length (subscriptions s1) = length (subscriptions s)
             \<and> length (filter (\<lambda>(a, b). a \<noteq> b) (zip (subscriptions s) (subscriptions s1))) = 1
          else subscriptions s1 = subscriptions s @ [r_subscription r])"
proof -
  from first obtain pl usr where
    pl: "find (\<lambda>p. p_id p = planId) plans = Some pl" and
    nodup: "findOne (\<lambda>t. idempotency_key t = key) (transactions s) = None" and
    usr: "findOne (\<lambda>u. u_id u = userId) (users s) = Some usr" and
    bal: "calculateFinalPrice pl \<le> or_zero (vv_balance usr)" and
    txn: "purchase_txn pl (calculateFinalPrice pl) now userId key s = Inr (r, s1)"
    by (rule purchase_success)
  have none: "filter (\<lambda>t. idempotency_key t = key) (transactions s) = []"
    using nodup by (simp add: findOne_None filter_empty_conv)
  have b0: "balance_of userId s = or_zero (vv_balance usr)"
    using usr by (simp add: balance_of_def)
  show ?thesis
  proof (cases "findOne (active_unexpired userId now) (subscriptions s)")
    case None
    from purchase_txn_new [OF usr bal None nodup, of pl] txn
    have r: "r = \<lparr> r_finalPrice = calculateFinalPrice pl,
            r_subscription = new_subscription (next_oid s) userId pl (calculateFinalPrice pl) now,
            r_transaction = new_transaction (Suc (next_oid s)) userId (next_oid s) pl (calculateFinalPrice pl) False now key
               (or_zero (vv_balance usr)) (or_zero (vv_balance usr) - calculateFinalPrice pl),
            r_isRenewal = False,
            r_user = usr \<rparr>"
      and s1: "s1 = s\<lparr> subscriptions := subscriptions s @ [new_subscription (next_oid s) userId pl (calculateFinalPrice pl) now],
             users := updateOne (\<lambda>u. u_id u = userId)
                 (\<lambda>u. u\<lparr> vv_balance := Some (or_zero (vv_balance usr) - calculateFinalPrice pl), u_updated_at := Some now \<rparr>) (users s),
             transactions := transactions s @ [new_transaction (Suc (next_oid s)) userId (next_oid s) pl (calculateFinalPrice pl) False now key
               (or_zero (vv_balance usr)) (or_zero (vv_balance usr) - calculateFinalPrice pl)],
             next_oid := Suc (Suc (next_oid s)) \<rparr>"
      by simp_all
    have held: "findOne (\<lambda>t. idempotency_key t = key) (transactions s1) \<noteq> None"
      by (simp add: s1 findOne_append nodup) (simp add: findOne_def new_transaction_def)
    have second: "purchaseSubscription plans now' userId' planId key s1 = (Inl DuplicateTransaction, s1)"
      using pl held by (simp add: purchaseSubscription_def Let_def)
    have any: "snd (purchaseSubscription plans' now' userId' planId' key s1) = s1
        \<and> (\<exists>e. fst (purchaseSubscription plans' now' userId' planId' key s1) = Inl e)"
      using held by (simp add: purchaseSubscription_def Let_def split: option.splits)
    have balance: "balance_of userId s1 = balance_of userId s - r_finalPrice r"
      using usr by (simp add: s1 r b0 balance_of_def findOne_updateOne_same or_zero_def)
    have one: "length (filter (\<lambda>t. idempotency_key t = key) (transactions s1)) = 1"
      by (simp add: s1 none new_transaction_def)
    show ?thesis using second any balance one by (simp add: r s1)
  next
    case (Some existing)
    from purchase_txn_renewal [OF usr bal Some nodup, of pl] txn
    have r: "r = \<lparr> r_finalPrice = calculateFinalPrice pl,
            r_subscription = renewed_copy (calculateFinalPrice pl) now (expires_at existing + planDurationMs pl) existing,
            r_transaction = new_transaction (next_oid s) userId (sub_id existing) pl (calculateFinalPrice pl) True now key
               (or_zero (vv_balance usr)) (or_zero (vv_balance usr) - calculateFinalPrice pl),
            r_isRenewal = True,
            r_user = usr \<rparr>"
     and s1: "s1 = s\<lparr> subscriptions := updateOne (\<lambda>d. sub_id d = sub_id existing)
                 (renew_update pl (calculateFinalPrice pl) now (expires_at existing + planDurationMs pl)) (subscriptions s),
             users := updateOne (\<lambda>u. u_id u = userId)
                 (\<lambda>u. u\<lparr> vv_balance := Some (or_zero (vv_balance usr) - calculateFinalPrice pl), u_updated_at := Some now \<rparr>) (users s),
             transactions := transactions s @ [new_transaction (next_oid s) userId (sub_id existing) pl (calculateFinalPrice pl) True now key
               (or_zero (vv_balance usr)) (or_zero (vv_balance usr) - calculateFinalPrice pl)],
             next_oid := Suc (next_oid s) \<rparr>"
      by simp_all
    have held: "findOne (\<lambda>t. idempotency_key t = key) (transactions s1) \<noteq> None"
      by (simp add: s1 findOne_append nodup) (simp add: findOne_def new_transaction_def)
    have second: "purchaseSubscription plans now' userId' planId key s1 = (Inl DuplicateTransaction, s1)"
      using pl held by (simp add: purchaseSubscription_def Let_def)
    have any: "snd (purchaseSubscription plans' now' userId' planId' key s1) = s1
        \<and> (\<exists>e. fst (purchaseSubscription plans' now' userId' planId' key s1) = Inl e)"
      using held by (simp add: purchaseSubscription_def Let_def split: option.splits)
    have balance: "balance_of userId s1 = balance_of userId s - r_finalPrice r"
      using usr by (simp add: s1 r b0 balance_of_def findOne_updateOne_same or_zero_def)
    have one: "length (filter (\<lambda>t. idempotency_key t = key) (transactions s1)) = 1"
      by (simp add: s1 none new_transaction_def)
    from Some have "existing \<in> set (subscriptions s)" by (simp add: findOne_Some)
    then obtain y where "find (\<lambda>d. sub_id d = sub_id existing) (subscriptions s) = Some y"
      using find_by_id_exists [of existing "subscriptions s" sub_id] by blast
    then have diff: "length (filter (\<lambda>(a, b). a \<noteq> b) (zip (subscriptions s) (subscriptions s1))) = 1"
      by (simp add: s1 updateOne_one_diff renew_update_changes)
    show ?thesis using second any balance one diff by (simp add: r s1 updateOne_length)
  qed
qed

theorem same_key_twice_witness:
  "\<exists>r s1. purchaseSubscription [plan30, plan15] 1000 ''u1'' ''p30'' ''k1'' store0 = (Inr r, s1)
     \<and> purchaseSubscription [plan30, plan15] 2000 ''u1'' ''p30'' ''k1'' s1 = (Inl DuplicateTransaction, s1)
     \<and> balance_of ''u1'' s1 = 300
     \<and> length (filter (\<lambda>t. idempotency_key t = ''k1'') (transactions s1)) = 1
     \<and> subscriptions s1 = subscriptions store0 @ [r_subscription r]"
proof -
  obtain r s1 where
    first: "purchaseSubscription [plan30, plan15] 1000 ''u1'' ''p30'' ''k1'' store0 = (Inr r, s1)"
    and r: "r_finalPrice r = 200" "\<not> r_isRenewal r"
    by (simp add: eval_defs plan30_def plan15_def store0_def)
  have b: "balance_of ''u1'' store0 = 500"
    by (simp add: balance_of_def findOne_def store0_def or_zero_def)
  from same_key_twice [OF first, of 2000 "''u1''"] r b first show ?thesis
    by simp
qed

text \<open>
  Once the deferred cleanup has deleted the transaction record, the key is accepted
  again: the renewal below is charged, and the balance of 300 drops to 100.
\<close>

lemma same_key_after_cleanup:
  "fst (purchaseSubscription [plan30, plan15] 9000 ''u1'' ''p30'' ''k1'' (cleanupTransaction 1 store1))
     \<noteq> Inl DuplicateTransaction
   \<and> balance_of ''u1''
       (snd (purchaseSubscription [plan30, plan15] 9000 ''u1'' ''p30'' ''k1'' (cleanupTransaction 1 store1)))
     = 100"
  by (simp add: eval_defs cleanupTransaction_def store1_def sub_first_def plan30_def plan15_def)

text \<open>
  C2, as amended. The duplicate check is made once, before the atomic unit is entered,
  hence before the balance check and before any write: a call whose key is held by the
  transaction log (and whose plan exists) fails with the duplicate-transaction error
  whatever the balance, and the store is unchanged. The atomic unit has no key check
  of its own; run on a store that holds the key it never commits: it ends with
  user-not-found, insufficient-balance or the duplicate-key error of the unique index,
  and the store is unchanged.
\<close>

theorem key_check_precedes_atomic_unit:
  assumes pl: "find (\<lambda>p. p_id p = planId) plans = Some pl"
    and held: "findOne (\<lambda>t. idempotency_key t = key) (transactions s) \<noteq> None"
  shows "purchaseSubscription plans now userId planId key s = (Inl DuplicateTransaction, s)
       \<and> (\<exists>e. withTransaction (purchase_txn pl (calculateFinalPrice pl) now userId key) s = (Inl e, s)
              \<and> (e = UserNotFound \<or> e = DuplicateKeyError
                  \<or> e = InsufficientBalance (balance_of userId s) (calculateFinalPrice pl)))"
proof -
  have first: "purchaseSubscription plans now userId planId key s = (Inl DuplicateTransaction, s)"
    using pl held by (simp add: purchaseSubscription_def Let_def)
  have unit: "\<exists>e. withTransaction (purchase_txn pl (calculateFinalPrice pl) now userId key) s = (Inl e, s)
              \<and> (e = UserNotFound \<or> e = DuplicateKeyError
                  \<or> e = InsufficientBalance (balance_of userId s) (calculateFinalPrice pl))"
    using held
    by (auto simp: withTransaction_def purchase_txn_def Let_def insert_transaction_def
        new_transaction_def balance_of_def split: option.splits)
  from first unit show ?thesis by simp
qed

theorem key_check_precedes_atomic_unit_witness:
  "purchaseSubscription [plan30, plan15] 1000 ''u1'' ''p30'' ''k1'' store_held
     = (Inl DuplicateTransaction, store_held)
   \<and> (\<exists>e. withTransaction (purchase_txn plan30 (calculateFinalPrice plan30) 1000 ''u1'' ''k1'') store_held
            = (Inl e, store_held)
        \<and> (e = UserNotFound \<or> e = DuplicateKeyError
            \<or> e = InsufficientBalance (balance_of ''u1'' store_held) (calculateFinalPrice plan30)))"
proof -
  have pl: "find (\<lambda>p. p_id p = ''p30'') [plan30, plan15] = Some plan30"
    by (simp add: plan30_def)
  have held: "findOne (\<lambda>t. idempotency_key t = ''k1'') (transactions store_held) \<noteq> None"
    by (simp add: findOne_def store_held_def new_transaction_def)
  from key_check_precedes_atomic_unit [OF pl held] show ?thesis .
qed

text \<open>
  C2 as stated fails: the atomic unit, run on a store that holds the key \<open>k1\<close> and a
  balance of 0, reports insufficient balance; no key check stands before its balance
  check.
\<close>

theorem atomic_unit_has_no_key_check:
  "idempotency_key (hd (transactions store_held)) = ''k1''
   \<and> purchase_txn plan30 (calculateFinalPrice plan30) 1000 ''u1'' ''k1'' store_held
       = Inl (InsufficientBalance 0 200)"
  by (simp add: eval_defs plan30_def store_held_def)

text \<open>
  C4. A purchase by a user who holds an active subscription that expires strictly after
  now (the one the renewal lookup returns) succeeds as a renewal when the plan exists,
  the key is new and the balance suffices: the stored record is changed in place (the
  identifiers of the collection are the same, no record is added), its expiry is the old
  expiry plus the days of the plan, its renewal count is one more, its total paid is
  the final price more, and \<open>isRenewal\<close> is returned true.
\<close>

theorem renewal_extends_from_current_expiry:
  assumes pl: "find (\<lambda>p. p_id p = planId) plans = Some pl"
    and nodup: "findOne (\<lambda>t. idempotency_key t = key) (transactions s) = None"
    and usr: "findOne (\<lambda>u. u_id u = userId) (users s) = Some usr"
    and bal: "calculateFinalPrice pl \<le> or_zero (vv_balance usr)"
    and ex: "findOne (active_unexpired userId now) (subscriptions s) = Some existing"
    and ids: "distinct (map sub_id (subscriptions s))"
  shows "\<exists>r s' d'. purchaseSubscription plans now userId planId key s = (Inr r, s')
      \<and> r_isRenewal r
      \<and> map sub_id (subscriptions s') = map sub_id (subscriptions s)
      \<and> findOne (\<lambda>d. sub_id d = sub_id existing) (subscriptions s') = Some d'
      \<and> expires_at d' = expires_at existing + days pl * 24 * 60 * 60 * 1000
      \<and> renewal_count d' = Some (count_or_zero (renewal_count existing) + 1)
      \<and> total_paid_vv d' = Some (or_zero (total_paid_vv existing) + calculateFinalPrice pl)
      \<and> expires_at (r_subscription r) = expires_at existing + days pl * 24 * 60 * 60 * 1000"
proof -
  let ?f = "renew_update pl (calculateFinalPrice pl) now (expires_at existing + planDurationMs pl)"
  from purchase_renewal_result [OF pl nodup usr bal ex] obtain r s' where
    res: "purchaseSubscription plans now userId planId key s = (Inr r, s')" and
    ren: "r_isRenewal r" and
    copy: "r_subscription r = renewed_copy (calculateFinalPrice pl) now (expires_at existing + planDurationMs pl) existing" and
    subs: "subscriptions s' = updateOne (\<lambda>d. sub_id d = sub_id existing) ?f (subscriptions s)"
    by blast
  have fid: "\<And>y. sub_id (?f y) = sub_id y" by (simp add: renew_update_def)
  have subs': "subscriptions s' = map (\<lambda>y. if sub_id y = sub_id existing then ?f y else y) (subscriptions s)"
    using ids by (simp add: subs updateOne_by_key)
  have mem: "existing \<in> set (subscriptions s)" using ex by (simp add: findOne_Some)
  have found: "findOne (\<lambda>d. sub_id d = sub_id existing) (subscriptions s') = Some (?f existing)"
    unfolding subs' using ids mem fid by (rule findOne_by_key_map)
  have same_ids: "map sub_id (subscriptions s') = map sub_id (subscriptions s)"
    by (simp add: subs' o_def fid cong: if_cong)
  have props: "expires_at (?f existing) = expires_at existing + days pl * 24 * 60 * 60 * 1000"
    "renewal_count (?f existing) = Some (count_or_zero (renewal_count existing) + 1)"
    "total_paid_vv (?f existing) = Some (or_zero (total_paid_vv existing) + calculateFinalPrice pl)"
    by (simp_all add: renew_update_def planDurationMs_def)
  have rexp: "expires_at (r_subscription r) = expires_at existing + days pl * 24 * 60 * 60 * 1000"
    by (simp add: copy renewed_copy_def planDurationMs_def)
  from res ren same_ids found props rexp show ?thesis by blast
qed

theorem renewal_extends_from_current_expiry_witness:
  "\<exists>r s' d'. purchaseSubscription [plan30, plan15] 2000 ''u1'' ''p15'' ''k2'' store1 = (Inr r, s')
      \<and> r_isRenewal r
      \<and> map sub_id (subscriptions s') = [0]
      \<and> findOne (\<lambda>d. sub_id d = 0) (subscriptions s') = Some d'
      \<and> expires_at d' = 2592001000 + 1296000000
      \<and> renewal_count d' = Some 1
      \<and> total_paid_vv d' = Some 300"
proof -
  have pl: "find (\<lambda>p. p_id p = ''p15'') [plan30, plan15] = Some plan15"
    by (simp add: plan30_def plan15_def)
  have nodup: "findOne (\<lambda>t. idempotency_key t = ''k2'') (transactions store1) = None"
    by (simp add: findOne_def store1_def new_transaction_def)
  have usr: "findOne (\<lambda>u. u_id u = ''u1'') (users store1)
      = Some \<lparr> u_id = ''u1'', vv_balance = Some 300, u_updated_at = Some 1000 \<rparr>"
    by (simp add: findOne_def store1_def)
  have bal: "calculateFinalPrice plan15
      \<le> or_zero (vv_balance \<lparr> u_id = ''u1'', vv_balance = Some 300, u_updated_at = Some 1000 \<rparr>)"
    by (simp add: calculateFinalPrice_def calculateFinalPriceObj_def plan15_def or_zero_def)
  have ex: "findOne (active_unexpired ''u1'' 2000) (subscriptions store1) = Some sub_first"
    by (simp add: findOne_def store1_def sub_first_def new_subscription_def active_unexpired_def
        planDurationMs_def plan30_def)
  have ids: "distinct (map sub_id (subscriptions store1))"
    by (simp add: store1_def)
  have vals: "sub_id sub_first = 0" "expires_at sub_first = 2592001000"
    "count_or_zero (renewal_count sub_first) = 0" "or_zero (total_paid_vv sub_first) = 200"
    "days plan15 = 15" "calculateFinalPrice plan15 = 100" "map sub_id (subscriptions store1) = [0]"
    by (simp_all add: sub_first_def new_subscription_def planDurationMs_def plan30_def plan15_def
        count_or_zero_def or_zero_def calculateFinalPrice_def calculateFinalPriceObj_def store1_def)
  from renewal_extends_from_current_expiry [OF pl nodup usr bal ex ids]
  obtain r s' d' where
    "purchaseSubscription [plan30, plan15] 2000 ''u1'' ''p15'' ''k2'' store1 = (Inr r, s')"
    "r_isRenewal r" "map sub_id (subscriptions s') = [0]"
    "findOne (\<lambda>d. sub_id d = 0) (subscriptions s') = Some d'"
    "expires_at d' = 2592001000 + 1296000000" "renewal_count d' = Some 1"
    "total_paid_vv d' = Some 300"
    by (auto simp: vals)
  then show ?thesis by (intro exI conjI)
qed

text \<open>
  C10. A purchase by a user whose only subscription is marked active but expired at or
  before now: the renewal lookup finds nothing, a new record is appended with expiry
  now plus the days of the plan and \<open>isRenewal\<close> false, and the user then has two
  records, the stale one unchanged (still marked active).
\<close>

theorem stale_active_gets_second_record:
  assumes pl: "find (\<lambda>p. p_id p = planId) plans = Some pl"
    and nodup: "findOne (\<lambda>t. idempotency_key t = key) (transactions s) = None"
    and usr: "findOne (\<lambda>u. u_id u = userId) (users s) = Some usr"
    and bal: "calculateFinalPrice pl \<le> or_zero (vv_balance usr)"
    and only: "filter (\<lambda>d. s_user_id d = userId) (subscriptions s) = [stale]"
    and act: "s_status stale = ''active''"
    and past: "expires_at stale \<le> now"
  shows "\<exists>r s'. purchaseSubscription plans now userId planId key s = (Inr r, s')
      \<and> \<not> r_isRenewal r
      \<and> expires_at (r_subscription r) = now + days pl * 24 * 60 * 60 * 1000
      \<and> s_status (r_subscription r) = ''active''
      \<and> subscriptions s' = subscriptions s @ [r_subscription r]
      \<and> filter (\<lambda>d. s_user_id d = userId) (subscriptions s') = [stale, r_subscription r]"
proof -
  have none: "findOne (active_unexpired userId now) (subscriptions s) = None"
  proof (rule ccontr)
    assume "findOne (active_unexpired userId now) (subscriptions s) \<noteq> None"
    then obtain d where "findOne (active_unexpired userId now) (subscriptions s) = Some d" by blast
    then have d: "d \<in> set (subscriptions s)" "active_unexpired userId now d"
      by (simp_all add: findOne_Some)
    then have "d \<in> set (filter (\<lambda>d. s_user_id d = userId) (subscriptions s))"
      by (simp add: active_unexpired_def)
    with only have "d = stale" by simp
    with d(2) past show False by (simp add: active_unexpired_def)
  qed
  from purchase_new_result [OF pl nodup usr bal none] obtain r s' where
    res: "purchaseSubscription plans now userId planId key s = (Inr r, s')" and
    new: "\<not> r_isRenewal r" and
    doc: "r_subscription r = new_subscription (next_oid s) userId pl (calculateFinalPrice pl) now" and
    subs: "subscriptions s' = subscriptions s @ [r_subscription r]"
    by blast
  have "expires_at (r_subscription r) = now + days pl * 24 * 60 * 60 * 1000"
    "s_status (r_subscription r) = ''active''"
    "s_user_id (r_subscription r) = userId"
    by (simp_all add: doc new_subscription_def planDurationMs_def)
  with res new subs only show ?thesis by simp
qed

theorem stale_active_gets_second_record_witness:
  "\<exists>r s'. purchaseSubscription [plan30, plan15] 6000 ''u1'' ''p30'' ''k3'' store_stale = (Inr r, s')
      \<and> \<not> r_isRenewal r
      \<and> expires_at (r_subscription r) = 6000 + 2592000000
      \<and> filter (\<lambda>d. s_user_id d = ''u1'') (subscriptions s') = [sub_stale, r_subscription r]
      \<and> s_status sub_stale = ''active'' \<and> expires_at sub_stale \<le> 6000"
proof -
  have pl: "find (\<lambda>p. p_id p = ''p30'') [plan30, plan15] = Some plan30"
    by (simp add: plan30_def)
  have nodup: "findOne (\<lambda>t. idempotency_key t = ''k3'') (transactions store_stale) = None"
    by (simp add: findOne_def store_stale_def)
  have usr: "findOne (\<lambda>u. u_id u = ''u1'') (users store_stale)
      = Some \<lparr> u_id = ''u1'', vv_balance = Some 300, u_updated_at = Some 1000 \<rparr>"
    by (simp add: findOne_def store_stale_def)
  have bal: "calculateFinalPrice plan30
      \<le> or_zero (vv_balance \<lparr> u_id = ''u1'', vv_balance = Some 300, u_updated_at = Some 1000 \<rparr>)"
    by (simp add: calculateFinalPrice_def calculateFinalPriceObj_def plan30_def or_zero_def)
  have only: "filter (\<lambda>d. s_user_id d = ''u1'') (subscriptions store_stale) = [sub_stale]"
    by (simp add: store_stale_def sub_stale_def new_subscription_def)
  have act: "s_status sub_stale = ''active''"
    by (simp add: sub_stale_def new_subscription_def)
  have past: "expires_at sub_stale \<le> 6000"
    by (simp add: sub_stale_def)
  have d: "days plan30 = 30" by (simp add: plan30_def)
  from stale_active_gets_second_record [OF pl nodup usr bal only act past]
  obtain r s' where
    "purchaseSubscription [plan30, plan15] 6000 ''u1'' ''p30'' ''k3'' store_stale = (Inr r, s')"
    "\<not> r_isRenewal r" "expires_at (r_subscription r) = 6000 + 2592000000"
    "filter (\<lambda>d. s_user_id d = ''u1'') (subscriptions s') = [sub_stale, r_subscription r]"
    by (auto simp: d)
  with act past show ?thesis by (intro exI conjI)
qed

section \<open>Balances\<close>

text \<open>
  What holds of the balance invariant: a purchase keeps every balance non-negative, a
  purchase the balance cannot pay changes nothing, and so does an admin adjustment that
  subtracts or whose amount is not negative.
\<close>

lemma purchase_keeps_balances_nonneg:
  assumes "balances_nonneg s"
  shows "balances_nonneg (snd (purchaseSubscription plans now userId planId key s))"
proof (cases "purchaseSubscription plans now userId planId key s")
  case (Pair res s1)
  show ?thesis
  proof (cases res)
    case (Inl e)
    with Pair have "s1 = s" by (simp add: purchase_error_keeps_store)
    with Pair assms show ?thesis by simp
  next
    case (Inr r)
    with Pair obtain pl where
      "purchase_txn pl (calculateFinalPrice pl) now userId key s = Inr (r, s1)"
      by (auto elim: purchase_success)
    from purchase_txn_users [OF this] obtain usr where
      both: "findOne (\<lambda>u. u_id u = userId) (users s) = Some usr
        \<and> calculateFinalPrice pl \<le> or_zero (vv_balance usr)
        \<and> users s1 = updateOne (\<lambda>u. u_id u = userId)
          (\<lambda>u. u\<lparr> vv_balance := Some (or_zero (vv_balance usr) - calculateFinalPrice pl),
                  u_updated_at := Some now \<rparr>) (users s)" ..
    from both have le: "calculateFinalPrice pl \<le> or_zero (vv_balance usr)" by simp
    from both have us: "users s1 = updateOne (\<lambda>u. u_id u = userId)
          (\<lambda>u. u\<lparr> vv_balance := Some (or_zero (vv_balance usr) - calculateFinalPrice pl),
                  u_updated_at := Some now \<rparr>) (users s)" by simp
    have "\<forall>u\<in>set (users s1). 0 \<le> or_zero (vv_balance u)"
      unfolding us
    proof (rule updateOne_preserves)
      show "\<forall>u\<in>set (users s). 0 \<le> or_zero (vv_balance u)"
        using assms by (simp add: balances_nonneg_def)
    next
      fix u :: user
      show "0 \<le> or_zero (vv_balance (u\<lparr> vv_balance := Some (or_zero (vv_balance usr) - calculateFinalPrice pl),
                  u_updated_at := Some now \<rparr>))"
        using le by (simp add: or_zero_def)
    qed
    with Pair show ?thesis by (simp add: balances_nonneg_def)
  qed
qed

lemma admin_adjust_keeps_balances_nonneg:
  assumes "balances_nonneg s"
    and "operation = ''subtract'' \<or> (\<exists>a. amount = Some a \<and> 0 \<le> a)"
  shows "balances_nonneg (snd (adminAdjustBalance now userId amount operation s))"
proof (cases amount)
  case None
  with assms(1) show ?thesis by (simp add: adminAdjustBalance_def)
next
  case (Some a)
  show ?thesis
  proof (cases "findOne (\<lambda>u. u_id u = userId) (users s)")
    case None
    with Some assms(1) show ?thesis by (simp add: adminAdjustBalance_def)
  next
    case (Some usr)
    from Some have "usr \<in> set (users s)" by (simp add: findOne_Some)
    with assms(1) have cur: "0 \<le> or_zero (vv_balance usr)" by (simp add: balances_nonneg_def)
    have all: "\<forall>u\<in>set (users s). 0 \<le> or_zero (vv_balance u)"
      using assms(1) by (simp add: balances_nonneg_def)
    have upd: "\<And>b. 0 \<le> b \<Longrightarrow> \<forall>u\<in>set (updateOne (\<lambda>u. u_id u = userId)
        (\<lambda>u. u\<lparr> vv_balance := Some b, u_updated_at := Some now \<rparr>) (users s)). 0 \<le> or_zero (vv_balance u)"
      using all by (intro updateOne_preserves) (simp_all add: or_zero_def)
    have keep: "\<And>b. 0 \<le> b \<Longrightarrow> balances_nonneg (s\<lparr> users := updateOne (\<lambda>u. u_id u = userId)
        (\<lambda>u. u\<lparr> vv_balance := Some b, u_updated_at := Some now \<rparr>) (users s) \<rparr>)"
      using upd by (simp add: balances_nonneg_def)
    from assms \<open>amount = Some a\<close> Some cur show ?thesis
      by (auto simp: adminAdjustBalance_def Let_def intro!: keep)
  qed
qed

text \<open>
  C3. The claim: after any sequence of purchases and admin adjustments (set, add,
  subtract) every balance is at least 0. The route compares the amount with 0 nowhere,
  and only \<^verbatim>\<open>subtract\<close> clamps: from a balance of 500, \<^verbatim>\<open>set\<close> with
  amount -5 stores -5 and \<^verbatim>\<open>add\<close> with amount -600 stores -100.
\<close>

theorem admin_adjustment_makes_balance_negative:
  "balance_of ''u1'' store0 = 500
   \<and> balance_of ''u1'' (snd (adminAdjustBalance 1000 ''u1'' (Some (- 5)) ''set'' store0)) = - 5
   \<and> balance_of ''u1'' (snd (adminAdjustBalance 1000 ''u1'' (Some (- 600)) ''add'' store0)) = - 100"
  by (simp add: adminAdjustBalance_def balance_of_def findOne_def or_zero_def store0_def Let_def)

section \<open>Sweeps: the loops as maps over the collection\<close>

lemma expire_update_id [simp]: "sub_id (expire_update now d) = sub_id d"
  by (simp add: expire_update_def)

lemma warn_update_id [simp]: "sub_id (warn_update now d) = sub_id d"
  by (simp add: warn_update_def)

lemma hit_Nil [simp]: "hit fails [] x = False"
  by (simp add: hit_def)

lemma hit_Cons:
  "hit fails (d # ds) x \<longleftrightarrow> (sub_id d = sub_id x \<and> \<not> fails (sub_id d)) \<or> hit fails ds x"
  by (auto simp: hit_def)

lemma hit_expire_update [simp]: "hit fails ds (expire_update now x) = hit fails ds x"
  by (simp add: hit_def)

lemma hit_warn_update [simp]: "hit fails ds (warn_update now x) = hit fails ds x"
  by (simp add: hit_def)

lemma hit_filter:
  assumes "distinct (map sub_id xs)" and "x \<in> set xs"
  shows "hit fails (filter P xs) x \<longleftrightarrow> P x \<and> \<not> fails (sub_id x)"
proof -
  have "\<And>d. d \<in> set xs \<Longrightarrow> sub_id d = sub_id x \<Longrightarrow> d = x"
    using assms by (meson distinct_map inj_onD)
  then show ?thesis using assms(2) by (auto simp: hit_def)
qed

lemma filter_key_single:
  assumes "distinct (map k xs)" and "x \<in> set xs" and "Q x"
  shows "filter (\<lambda>y. k y = k x \<and> Q y) xs = [x]"
  using assms(1,2)
proof (induction xs)
  case Nil
  then show ?case by simp
next
  case (Cons a xs)
  show ?case
  proof (cases "a = x")
    case True
    with Cons.prems have "k x \<notin> k ` set xs" by simp
    then have "\<forall>y\<in>set xs. \<not> (k y = k x \<and> Q y)" by (metis imageI)
    then have "filter (\<lambda>y. k y = k x \<and> Q y) xs = []" by (simp add: filter_empty_conv)
    with True assms(3) show ?thesis by simp
  next
    case False
    with Cons.prems have "x \<in> set xs" "k a \<noteq> k x" by auto
    with Cons show ?thesis by simp
  qed
qed

lemma findOne_by_key_map_all:
  assumes "distinct (map k xs)" and "x \<in> set xs" and "\<And>y. k (g y) = k y"
  shows "findOne (\<lambda>d. k d = k x) (map g xs) = Some (g x)"
  using assms(1,2)
proof (induction xs)
  case Nil
  then show ?case by simp
next
  case (Cons a xs)
  show ?case
  proof (cases "a = x")
    case True
    then show ?thesis by (simp add: findOne_def assms(3))
  next
    case False
    with Cons.prems have "x \<in> set xs" and "k a \<noteq> k x" by auto
    with Cons show ?thesis by (simp add: findOne_def assms(3))
  qed
qed

lemma processExpired_store:
  assumes "distinct (map sub_id (subscriptions s))"
  shows "fst (snd (processExpiredSubscription e now d s)) =
         s\<lparr>subscriptions := map (\<lambda>x. if sub_id x = sub_id d \<and> \<not> sub_update_fails e (sub_id d)
             then expire_update now x else x) (subscriptions s)\<rparr>"
  using assms by (simp add: processExpiredSubscription_def Let_def updateOne_by_key)

lemma expire_loop_store:
  "distinct (map sub_id (subscriptions s)) \<Longrightarrow>
   fst (snd (expire_loop e now todo s)) =
     s\<lparr>subscriptions := map (\<lambda>x. if hit (sub_update_fails e) todo x then expire_update now x else x)
          (subscriptions s)\<rparr>"
proof (induction todo arbitrary: s)
  case Nil
  then show ?case by simp
next
  case (Cons d ds)
  let ?s1 = "fst (snd (processExpiredSubscription e now d s))"
  have s1: "?s1 = s\<lparr>subscriptions := map (\<lambda>x. if sub_id x = sub_id d \<and> \<not> sub_update_fails e (sub_id d)
             then expire_update now x else x) (subscriptions s)\<rparr>"
    using Cons.prems by (rule processExpired_store)
  have "map sub_id (subscriptions ?s1) = map sub_id (subscriptions s)"
    by (simp add: s1 o_def)
  then have "distinct (map sub_id (subscriptions ?s1))" using Cons.prems by simp
  from Cons.IH [OF this]
  have "fst (snd (expire_loop e now ds ?s1)) =
     ?s1\<lparr>subscriptions := map (\<lambda>x. if hit (sub_update_fails e) ds x then expire_update now x else x)
          (subscriptions ?s1)\<rparr>" .
  moreover have "fst (snd (expire_loop e now (d # ds) s)) = fst (snd (expire_loop e now ds ?s1))"
    by (simp split: prod.splits)
  ultimately have "fst (snd (expire_loop e now (d # ds) s)) =
     ?s1\<lparr>subscriptions := map (\<lambda>x. if hit (sub_update_fails e) ds x then expire_update now x else x)
          (subscriptions ?s1)\<rparr>" by simp
  also have "\<dots> = s\<lparr>subscriptions := map (\<lambda>x. if hit (sub_update_fails e) (d # ds) x then expire_update now x else x)
          (subscriptions s)\<rparr>"
  proof -
    have "map (\<lambda>x. if hit (sub_update_fails e) ds x then expire_update now x else x)
            (subscriptions ?s1) =
          map (\<lambda>x. if hit (sub_update_fails e) (d # ds) x then expire_update now x else x)
            (subscriptions s)"
      by (auto simp: s1 hit_Cons expire_update_def)
    then show ?thesis by (simp add: s1)
  qed
  finally show ?case .
qed

lemma warn_one_store:
  assumes "distinct (map sub_id (subscriptions s))"
  shows "fst (snd (warn_one e now d s)) =
         s\<lparr>subscriptions := map (\<lambda>x. if sub_id x = sub_id d \<and> \<not> warn_blocked e (sub_id d)
             then warn_update now x else x) (subscriptions s)\<rparr>"
  using assms by (simp add: warn_one_def warn_blocked_def updateOne_by_key)

lemma warn_loop_store:
  "distinct (map sub_id (subscriptions s)) \<Longrightarrow>
   fst (snd (warn_loop e now todo s)) =
     s\<lparr>subscriptions := map (\<lambda>x. if hit (warn_blocked e) todo x then warn_update now x else x)
          (subscriptions s)\<rparr>"
proof (induction todo arbitrary: s)
  case Nil
  then show ?case by simp
next
  case (Cons d ds)
  let ?s1 = "fst (snd (warn_one e now d s))"
  have s1: "?s1 = s\<lparr>subscriptions := map (\<lambda>x. if sub_id x = sub_id d \<and> \<not> warn_blocked e (sub_id d)
             then warn_update now x else x) (subscriptions s)\<rparr>"
    using Cons.prems by (rule warn_one_store)
  have "map sub_id (subscriptions ?s1) = map sub_id (subscriptions s)"
    by (simp add: s1 o_def)
  then have "distinct (map sub_id (subscriptions ?s1))" using Cons.prems by simp
  from Cons.IH [OF this]
  have "fst (snd (warn_loop e now ds ?s1)) =
     ?s1\<lparr>subscriptions := map (\<lambda>x. if hit (warn_blocked e) ds x then warn_update now x else x)
          (subscriptions ?s1)\<rparr>" .
  moreover have "fst (snd (warn_loop e now (d # ds) s)) = fst (snd (warn_loop e now ds ?s1))"
    by (simp split: prod.splits)
  ultimately have "fst (snd (warn_loop e now (d # ds) s)) =
     ?s1\<lparr>subscriptions := map (\<lambda>x. if hit (warn_blocked e) ds x then warn_update now x else x)
          (subscriptions ?s1)\<rparr>" by simp
  also have "\<dots> = s\<lparr>subscriptions := map (\<lambda>x. if hit (warn_blocked e) (d # ds) x then warn_update now x else x)
          (subscriptions s)\<rparr>"
  proof -
    have "map (\<lambda>x. if hit (warn_blocked e) ds x then warn_update now x else x)
            (subscriptions ?s1) =
          map (\<lambda>x. if hit (warn_blocked e) (d # ds) x then warn_update now x else x)
            (subscriptions s)"
      by (auto simp: s1 hit_Cons warn_update_def)
    then show ?thesis by (simp add: s1)
  qed
  finally show ?case .
qed

lemma expire_pass_store:
  assumes "distinct (map sub_id (subscriptions s))"
  shows "fst (snd (expire_loop e now (filter P (subscriptions s)) s)) =
     s\<lparr>subscriptions := map (\<lambda>x. if P x \<and> \<not> sub_update_fails e (sub_id x)
          then expire_update now x else x) (subscriptions s)\<rparr>"
proof -
  have "map (\<lambda>x. if hit (sub_update_fails e) (filter P (subscriptions s)) x then expire_update now x else x)
          (subscriptions s) =
        map (\<lambda>x. if P x \<and> \<not> sub_update_fails e (sub_id x) then expire_update now x else x)
          (subscriptions s)"
    using assms by (simp add: hit_filter)
  with expire_loop_store [OF assms] show ?thesis by simp
qed

lemma warn_pass_store:
  assumes "distinct (map sub_id (subscriptions s))"
  shows "fst (snd (warn_loop e now (filter P (subscriptions s)) s)) =
     s\<lparr>subscriptions := map (\<lambda>x. if P x \<and> \<not> warn_blocked e (sub_id x)
          then warn_update now x else x) (subscriptions s)\<rparr>"
proof -
  have "map (\<lambda>x. if hit (warn_blocked e) (filter P (subscriptions s)) x then warn_update now x else x)
          (subscriptions s) =
        map (\<lambda>x. if P x \<and> \<not> warn_blocked e (sub_id x) then warn_update now x else x)
          (subscriptions s)"
    using assms by (simp add: hit_filter)
  with warn_loop_store [OF assms] show ?thesis by simp
qed

lemma handleExpired_store:
  assumes "distinct (map sub_id (subscriptions s))"
  shows "fst (snd (handleExpiredSubscriptions e now s)) =
     s\<lparr>subscriptions := map (\<lambda>x. if is_stale now x \<and> \<not> sub_update_fails e (sub_id x)
          then expire_update now x else x) (subscriptions s)\<rparr>"
  unfolding handleExpiredSubscriptions_def using assms by (rule expire_pass_store)

lemma sendExpiryWarnings_store:
  assumes "distinct (map sub_id (subscriptions s))"
  shows "fst (snd (sendExpiryWarnings e now s)) =
     s\<lparr>subscriptions := map (\<lambda>x. if to_warn e now x \<and> \<not> warn_blocked e (sub_id x)
          then warn_update now x else x) (subscriptions s)\<rparr>"
  unfolding sendExpiryWarnings_def using assms by (rule warn_pass_store)

lemma checkExpiries_store:
  "fst (checkExpiries e now s) =
   fst (snd (handleExpiredSubscriptions e now (fst (snd (sendExpiryWarnings e now s)))))"
  by (simp add: checkExpiries_def split: prod.splits)

lemma runRecoveryCheck_store:
  "fst (runRecoveryCheck e now s) =
   fst (snd (warn_loop e now
     (filter (missed_warning now)
        (subscriptions (fst (snd (expire_loop e now (filter (is_stale now) (subscriptions s)) s)))))
     (fst (snd (expire_loop e now (filter (is_stale now) (subscriptions s)) s)))))"
  by (simp add: runRecoveryCheck_def split: prod.splits)

lemma runRecoveryCheck_log:
  "snd (runRecoveryCheck e now s) =
   snd (snd (expire_loop e now (filter (is_stale now) (subscriptions s)) s))
   @ snd (snd (warn_loop e now
     (filter (missed_warning now)
        (subscriptions (fst (snd (expire_loop e now (filter (is_stale now) (subscriptions s)) s)))))
     (fst (snd (expire_loop e now (filter (is_stale now) (subscriptions s)) s)))))"
  by (simp add: runRecoveryCheck_def split: prod.splits)

lemma checkExpiries_subscriptions:
  assumes "distinct (map sub_id (subscriptions s))"
  shows "subscriptions (fst (checkExpiries e now s)) =
     map (\<lambda>x. if is_stale now x \<and> \<not> sub_update_fails e (sub_id x) then expire_update now x else x)
       (map (\<lambda>x. if to_warn e now x \<and> \<not> warn_blocked e (sub_id x) then warn_update now x else x)
          (subscriptions s))"
proof -
  let ?s1 = "fst (snd (sendExpiryWarnings e now s))"
  have s1: "?s1 = s\<lparr>subscriptions := map (\<lambda>x. if to_warn e now x \<and> \<not> warn_blocked e (sub_id x)
          then warn_update now x else x) (subscriptions s)\<rparr>"
    using assms by (rule sendExpiryWarnings_store)
  have "map sub_id (subscriptions ?s1) = map sub_id (subscriptions s)"
    by (simp add: s1 o_def)
  with assms have "distinct (map sub_id (subscriptions ?s1))" by simp
  from handleExpired_store [OF this, of e now] show ?thesis
    by (simp add: checkExpiries_store s1)
qed

lemma runRecoveryCheck_subscriptions:
  assumes "distinct (map sub_id (subscriptions s))"
  shows "subscriptions (fst (runRecoveryCheck e now s)) =
     map (\<lambda>x. if missed_warning now x \<and> \<not> warn_blocked e (sub_id x) then warn_update now x else x)
       (map (\<lambda>x. if is_stale now x \<and> \<not> sub_update_fails e (sub_id x) then expire_update now x else x)
          (subscriptions s))"
proof -
  let ?s1 = "fst (snd (expire_loop e now (filter (is_stale now) (subscriptions s)) s))"
  have s1: "?s1 = s\<lparr>subscriptions := map (\<lambda>x. if is_stale now x \<and> \<not> sub_update_fails e (sub_id x)
          then expire_update now x else x) (subscriptions s)\<rparr>"
    using assms by (rule expire_pass_store)
  have "map sub_id (subscriptions ?s1) = map sub_id (subscriptions s)"
    by (simp add: s1 o_def)
  with assms have "distinct (map sub_id (subscriptions ?s1))" by simp
  from warn_pass_store [OF this, of e now "missed_warning now"] show ?thesis
    by (simp add: runRecoveryCheck_store s1)
qed

text \<open>The calls made by the loops.\<close>

lemma expire_loop_Cons_log:
  "snd (snd (expire_loop e now (d # ds) s)) =
   snd (snd (processExpiredSubscription e now d s))
   @ snd (snd (expire_loop e now ds (fst (snd (processExpiredSubscription e now d s)))))"
  by (simp split: prod.splits)

lemma warn_loop_Cons_log:
  "snd (snd (warn_loop e now (d # ds) s)) =
   snd (snd (warn_one e now d s))
   @ snd (snd (warn_loop e now ds (fst (snd (warn_one e now d s)))))"
  by (simp split: prod.splits)

lemma expire_loop_notices:
  "length (filter (is_expired_notice i) (snd (snd (expire_loop e now todo s)))) =
   length (filter (\<lambda>d. sub_id d = i \<and> \<not> sub_update_fails e (sub_id d)) todo)"
proof (induction todo arbitrary: s)
  case Nil
  then show ?case by simp
next
  case (Cons d ds)
  have one: "length (filter (is_expired_notice i) (snd (snd (processExpiredSubscription e now d s)))) =
      (if sub_id d = i \<and> \<not> sub_update_fails e (sub_id d) then 1 else 0)"
    by (auto simp: processExpiredSubscription_def Let_def)
  show ?case
    unfolding expire_loop_Cons_log
    using Cons.IH [of "fst (snd (processExpiredSubscription e now d s))"] one
    by auto
qed

lemma warn_loop_no_expired_notice:
  "filter (is_expired_notice i) (snd (snd (warn_loop e now todo s))) = []"
proof (induction todo arbitrary: s)
  case Nil
  then show ?case by simp
next
  case (Cons d ds)
  have "filter (is_expired_notice i) (snd (snd (warn_one e now d s))) = []"
    by (simp add: warn_one_def)
  with Cons.IH [of "fst (snd (warn_one e now d s))"] show ?case
    unfolding warn_loop_Cons_log by simp
qed

lemmas sweep_eval_defs =
  checkExpiries_def runRecoveryCheck_def sendExpiryWarnings_def handleExpiredSubscriptions_def
  processExpiredSubscription_def warn_one_def to_warn_def is_stale_def missed_warning_def
  todayStart_def tomorrowEnd_def dayMs_def expire_update_def warn_update_def truthy_def
  new_subscription_def planDurationMs_def findOne_def Let_def

section \<open>Sweeps: properties\<close>

text \<open>
  C9. In the expiry pass a subscription that was selected (active, expired before now)
  and whose own status update goes through ends with status expired and
  \<open>expired_at = now\<close>, whether or not its role removal or its expired message throws
  (\<open>rf\<close>, \<open>mf\<close> are arbitrary) and whatever happens to the other selected
  subscriptions (the update flags of the others are arbitrary): failures are isolated
  per item.
\<close>

theorem expiry_pass_isolates_failures:
  assumes ids: "distinct (map sub_id (subscriptions s))"
    and d: "d \<in> set (subscriptions s)"
    and stale: "is_stale now d"
    and ok: "\<not> sub_update_fails e (sub_id d)"
  shows "\<exists>d'. findOne (\<lambda>x. sub_id x = sub_id d)
            (subscriptions (fst (snd (handleExpiredSubscriptions
               (e\<lparr> revoke_fails := rf, expired_msg_fails := mf \<rparr>) now s)))) = Some d'
          \<and> s_status d' = ''expired'' \<and> expired_at d' = Some now"
proof -
  let ?e = "e\<lparr> revoke_fails := rf, expired_msg_fails := mf \<rparr>"
  let ?g = "\<lambda>x. if is_stale now x \<and> \<not> sub_update_fails ?e (sub_id x) then expire_update now x else x"
  have "subscriptions (fst (snd (handleExpiredSubscriptions ?e now s))) = map ?g (subscriptions s)"
    by (simp add: handleExpired_store [OF ids])
  moreover have "findOne (\<lambda>x. sub_id x = sub_id d) (map ?g (subscriptions s)) = Some (?g d)"
    using ids d by (rule findOne_by_key_map_all) simp
  moreover have "?g d = expire_update now d" using stale ok by simp
  ultimately show ?thesis by (simp add: expire_update_def)
qed

theorem expiry_pass_isolates_failures_witness:
  "sub_update_fails env_faulty (sub_id sub_a) \<and> is_stale 43200000 sub_a
   \<and> (\<exists>d'. findOne (\<lambda>x. sub_id x = 1)
            (subscriptions (fst (snd (handleExpiredSubscriptions
               (env_faulty\<lparr> revoke_fails := (\<lambda>i. True), expired_msg_fails := (\<lambda>i. True) \<rparr>)
               43200000 store_sweep)))) = Some d'
          \<and> s_status d' = ''expired'' \<and> expired_at d' = Some 43200000)"
proof -
  have ids: "distinct (map sub_id (subscriptions store_sweep))"
    by (simp add: store_sweep_def sub_a_def sub_b_def sub_later_def new_subscription_def)
  have d: "sub_b \<in> set (subscriptions store_sweep)" by (simp add: store_sweep_def)
  have stale: "is_stale 43200000 sub_b"
    by (simp add: is_stale_def sub_b_def new_subscription_def)
  have ok: "\<not> sub_update_fails env_faulty (sub_id sub_b)"
    by (simp add: env_faulty_def sub_b_def new_subscription_def)
  have i: "sub_id sub_b = 1" by (simp add: sub_b_def new_subscription_def)
  have other: "sub_update_fails env_faulty (sub_id sub_a)" "is_stale 43200000 sub_a"
    by (simp_all add: env_faulty_def is_stale_def sub_a_def new_subscription_def)
  from expiry_pass_isolates_failures [OF ids d stale ok, of "\<lambda>i. True" "\<lambda>i. True"] other
  show ?thesis by (simp add: i)
qed

text \<open>
  C8. One run of the recovery sweep at time \<open>now\<close> takes a subscription that is
  active with \<open>expires_at < now\<close>, however far in the past, to status expired with
  \<open>expired_at = now\<close>, and makes exactly one expired-notification call for it
  (provided its status update is not refused by the store, see C9).
\<close>

theorem recovery_expires_stale:
  assumes ids: "distinct (map sub_id (subscriptions s))"
    and d: "d \<in> set (subscriptions s)"
    and act: "s_status d = ''active''"
    and past: "expires_at d < now"
    and ok: "\<not> sub_update_fails e (sub_id d)"
  shows "\<exists>s' log d'. runRecoveryCheck e now s = (s', log)
          \<and> findOne (\<lambda>x. sub_id x = sub_id d) (subscriptions s') = Some d'
          \<and> s_status d' = ''expired'' \<and> expired_at d' = Some now
          \<and> length (filter (is_expired_notice (sub_id d)) log) = 1"
proof -
  let ?E = "\<lambda>x. if is_stale now x \<and> \<not> sub_update_fails e (sub_id x) then expire_update now x else x"
  let ?W = "\<lambda>x. if missed_warning now x \<and> \<not> warn_blocked e (sub_id x) then warn_update now x else x"
  have stale: "is_stale now d" using act past by (simp add: is_stale_def)
  have subs: "subscriptions (fst (runRecoveryCheck e now s)) = map (\<lambda>x. ?W (?E x)) (subscriptions s)"
    by (simp add: runRecoveryCheck_subscriptions [OF ids] o_def)
  have "findOne (\<lambda>x. sub_id x = sub_id d) (map (\<lambda>x. ?W (?E x)) (subscriptions s)) = Some (?W (?E d))"
    using ids d by (rule findOne_by_key_map_all) simp
  moreover have "?W (?E d) = expire_update now d"
    using stale ok by (simp add: missed_warning_def expire_update_def)
  ultimately have found: "findOne (\<lambda>x. sub_id x = sub_id d)
      (subscriptions (fst (runRecoveryCheck e now s))) = Some (expire_update now d)"
    by (simp add: subs)
  have "distinct (map sub_id (filter (is_stale now) (subscriptions s)))"
    using ids by (rule distinct_map_filter)
  moreover have "d \<in> set (filter (is_stale now) (subscriptions s))"
    using d stale by simp
  ultimately have "filter (\<lambda>x. sub_id x = sub_id d \<and> \<not> sub_update_fails e (sub_id x))
      (filter (is_stale now) (subscriptions s)) = [d]"
    using ok by (rule filter_key_single)
  then have one: "length (filter (is_expired_notice (sub_id d)) (snd (runRecoveryCheck e now s))) = 1"
    by (simp add: runRecoveryCheck_log expire_loop_notices warn_loop_no_expired_notice)
  have props: "s_status (expire_update now d) = ''expired''"
    "expired_at (expire_update now d) = Some now"
    by (simp_all add: expire_update_def)
  have "runRecoveryCheck e now s = (fst (runRecoveryCheck e now s), snd (runRecoveryCheck e now s))"
    by simp
  with found one props show ?thesis by blast
qed

theorem recovery_expires_stale_witness:
  "\<exists>s' log d'. runRecoveryCheck env_ok 259200000 store_sweep = (s', log)
      \<and> findOne (\<lambda>x. sub_id x = 0) (subscriptions s') = Some d'
      \<and> s_status d' = ''expired'' \<and> expired_at d' = Some 259200000
      \<and> length (filter (is_expired_notice 0) log) = 1"
proof -
  have ids: "distinct (map sub_id (subscriptions store_sweep))"
    by (simp add: store_sweep_def sub_a_def sub_b_def sub_later_def new_subscription_def)
  have d: "sub_a \<in> set (subscriptions store_sweep)" by (simp add: store_sweep_def)
  have act: "s_status sub_a = ''active''" by (simp add: sub_a_def new_subscription_def)
  have past: "expires_at sub_a < 259200000" by (simp add: sub_a_def)
  have ok: "\<not> sub_update_fails env_ok (sub_id sub_a)" by (simp add: env_ok_def)
  have i: "sub_id sub_a = 0" by (simp add: sub_a_def new_subscription_def)
  from recovery_expires_stale [OF ids d act past ok] show ?thesis by (simp add: i)
qed

text \<open>What a sweep leaves behind is selected by no query of a sweep at the same time.\<close>

lemma expire_update_settled:
  "\<not> is_stale now (expire_update t x)"
  "\<not> to_warn e now (expire_update t x)"
  "\<not> missed_warning now (expire_update t x)"
  by (simp_all add: is_stale_def to_warn_def missed_warning_def expire_update_def)

lemma warn_update_settled:
  "\<not> to_warn e now (warn_update t x)"
  "\<not> missed_warning now (warn_update t x)"
  "is_stale now (warn_update t x) = is_stale now x"
  by (simp_all add: is_stale_def to_warn_def missed_warning_def warn_update_def)

lemma settled_by_checkExpiries:
  assumes "\<not> sub_update_fails e (sub_id x)" and "\<not> warning_msg_fails e (sub_id x)"
    and w: "w = (if to_warn e now x \<and> \<not> warn_blocked e (sub_id x) then warn_update now x else x)"
    and y: "y = (if is_stale now w \<and> \<not> sub_update_fails e (sub_id w) then expire_update now w else w)"
  shows "\<not> to_warn e now y \<and> \<not> is_stale now y"
  using assms(1,2) unfolding y w
  by (cases "to_warn e now x"; cases "is_stale now x")
     (simp_all add: warn_blocked_def expire_update_settled warn_update_settled)

lemma settled_by_runRecoveryCheck:
  assumes "\<not> sub_update_fails e (sub_id x)" and "\<not> warning_msg_fails e (sub_id x)"
    and w: "w = (if is_stale now x \<and> \<not> sub_update_fails e (sub_id x) then expire_update now x else x)"
    and y: "y = (if missed_warning now w \<and> \<not> warn_blocked e (sub_id w) then warn_update now w else w)"
  shows "\<not> is_stale now y \<and> \<not> missed_warning now y"
  using assms(1,2) unfolding y w
  by (cases "missed_warning now x"; cases "is_stale now x")
     (simp_all add: warn_blocked_def expire_update_settled warn_update_settled)

lemma checkExpiries_nothing_selected:
  assumes "filter (to_warn e now) (subscriptions s) = []"
    and "filter (is_stale now) (subscriptions s) = []"
  shows "checkExpiries e now s = (s, [])"
  using assms
  by (simp add: checkExpiries_def sendExpiryWarnings_def handleExpiredSubscriptions_def)

lemma runRecoveryCheck_nothing_selected:
  assumes "filter (is_stale now) (subscriptions s) = []"
    and "filter (missed_warning now) (subscriptions s) = []"
  shows "runRecoveryCheck e now s = (s, [])"
  using assms by (simp add: runRecoveryCheck_def)

text \<open>
  C7. Running the expiry sweep, or the recovery sweep, twice with the same clock value:
  after a first run in which no call failed, the second run selects no subscription for
  a warning and none for expiry, changes nothing in the store and makes no call.
\<close>

theorem sweep_twice_is_noop:
  assumes ids: "distinct (map sub_id (subscriptions s))"
    and nofail: "\<forall>d\<in>set (subscriptions s).
        \<not> sub_update_fails e (sub_id d) \<and> \<not> warning_msg_fails e (sub_id d)"
    and tz: "tz_offset e' = tz_offset e"
  shows "filter (to_warn e' now) (subscriptions (fst (checkExpiries e now s))) = []
       \<and> filter (is_stale now) (subscriptions (fst (checkExpiries e now s))) = []
       \<and> checkExpiries e' now (fst (checkExpiries e now s)) = (fst (checkExpiries e now s), [])
       \<and> filter (is_stale now) (subscriptions (fst (runRecoveryCheck e now s))) = []
       \<and> filter (missed_warning now) (subscriptions (fst (runRecoveryCheck e now s))) = []
       \<and> runRecoveryCheck e' now (fst (runRecoveryCheck e now s)) = (fst (runRecoveryCheck e now s), [])"
proof -
  let ?c = "fst (checkExpiries e now s)"
  let ?r = "fst (runRecoveryCheck e now s)"
  have same_window: "to_warn e' now = to_warn e now"
    by (simp add: to_warn_def todayStart_def tomorrowEnd_def tz fun_eq_iff)
  have c: "\<forall>y\<in>set (subscriptions ?c). \<not> to_warn e now y \<and> \<not> is_stale now y"
    unfolding checkExpiries_subscriptions [OF ids] set_map ball_simps
    using nofail settled_by_checkExpiries [OF _ _ refl refl, of e _ now] by blast
  have r: "\<forall>y\<in>set (subscriptions ?r). \<not> is_stale now y \<and> \<not> missed_warning now y"
    unfolding runRecoveryCheck_subscriptions [OF ids] set_map ball_simps
    using nofail settled_by_runRecoveryCheck [OF _ _ refl refl, of e _ now] by blast
  have w: "filter (to_warn e' now) (subscriptions ?c) = []"
    using c by (simp add: same_window filter_empty_conv)
  have x: "filter (is_stale now) (subscriptions ?c) = []"
    using c by (simp add: filter_empty_conv)
  have c2: "checkExpiries e' now ?c = (?c, [])"
    using w x by (rule checkExpiries_nothing_selected)
  have rx: "filter (is_stale now) (subscriptions ?r) = []"
    using r by (simp add: filter_empty_conv)
  have rw: "filter (missed_warning now) (subscriptions ?r) = []"
    using r by (simp add: filter_empty_conv)
  have r2: "runRecoveryCheck e' now ?r = (?r, [])"
    using rx rw by (rule runRecoveryCheck_nothing_selected)
  show ?thesis by (intro conjI w x c2 rx rw r2)
qed

theorem sweep_twice_is_noop_witness:
  "checkExpiries env_ok 43200000 (fst (checkExpiries env_ok 43200000 store_sweep))
     = (fst (checkExpiries env_ok 43200000 store_sweep), [])
   \<and> runRecoveryCheck env_ok 43200000 (fst (runRecoveryCheck env_ok 43200000 store_sweep))
     = (fst (runRecoveryCheck env_ok 43200000 store_sweep), [])
   \<and> snd (checkExpiries env_ok 43200000 store_sweep) \<noteq> []"
proof -
  have ids: "distinct (map sub_id (subscriptions store_sweep))"
    by (simp add: store_sweep_def sub_a_def sub_b_def sub_later_def new_subscription_def)
  have nofail: "\<forall>d\<in>set (subscriptions store_sweep).
      \<not> sub_update_fails env_ok (sub_id d) \<and> \<not> warning_msg_fails env_ok (sub_id d)"
    by (simp add: env_ok_def)
  have first: "snd (checkExpiries env_ok 43200000 store_sweep) \<noteq> []"
    by (simp add: sweep_eval_defs store_sweep_def sub_a_def sub_b_def sub_later_def env_ok_def
        plan30_def)
  from sweep_twice_is_noop [OF ids nofail refl, of 43200000] first show ?thesis by simp
qed

text \<open>
  The warning windows. The recovery sweep warns within the next 24 hours exactly; the
  window of the periodic pass, from the start of today to the end of tomorrow, contains
  the next 24 hours.
\<close>

lemma missed_warning_window:
  "missed_warning now d \<longleftrightarrow>
     s_status d = ''active'' \<and> \<not> warning_sent d \<and> now < expires_at d \<and> expires_at d < now + 86400000"
  by (auto simp: missed_warning_def dayMs_def)

lemma day_window_covers_next_24h:
  assumes "now < x" and "x < now + dayMs"
  shows "todayStart e now \<le> x \<and> x \<le> tomorrowEnd e now"
proof -
  define m where "m = (now + tz_offset e) mod dayMs"
  have m: "0 \<le> m" "m < dayMs"
    by (simp_all add: m_def dayMs_def)
  have ts: "todayStart e now = now - m"
    by (simp add: todayStart_def m_def)
  have te: "tomorrowEnd e now = now - m + 2 * dayMs - 1"
    by (simp add: tomorrowEnd_def ts)
  from assms m show ?thesis unfolding ts te by linarith
qed

text \<open>
  C6. The claim: the warning pass warns exactly the active, unwarned subscriptions that
  expire within the next 24 hours, and none outside that window. The periodic pass
  (\<^verbatim>\<open>sendExpiryWarnings\<close>, commented "expiring within 24 hours") selects by
  the days of the calendar: run at 12:00, it warns a subscription that expires 30 hours
  later and sets its \<open>warning_sent\<close>, while the query of the recovery sweep does not
  select that subscription.
\<close>

theorem warning_pass_warns_beyond_24h:
  "expires_at sub_later - 43200000 = 30 * 60 * 60 * 1000
   \<and> missed_warning 43200000 sub_later = False
   \<and> sendExpiryWarnings env_ok 43200000 store_later
      = (1, store_later\<lparr> subscriptions := [warn_update 43200000 sub_later] \<rparr>, [WarningNotice 2 True])
   \<and> warning_sent (warn_update 43200000 sub_later) = True"
  by (simp add: sweep_eval_defs store_later_def sub_later_def env_ok_def plan30_def)

end
